theory Spec2Isabelle
  imports Main "HOL-Library.AList"
begin

section \<open>Values, messages and effects\<close>

text \<open>
  JavaScript values of type \<open>any\<close> (handler results, decoded payloads, the values a promise
  is fulfilled with) are JSON values. An object is its property list in insertion order.
  Numbers are the integers the protocol uses (ids, millisecond timestamps, ports).
\<close>

datatype json =
    JNull
  | JBool bool
  | JNum int
  | JStr string
  | JArr "json list"
  | JObj "(string \<times> json) list"

datatype TSupportedProtocols = tcp | ipc

text \<open>\<open>TParams & object\<close>: the optional \<open>timeout\<close> and the remaining properties.\<close>

record TParams =
  timeout :: "int option"
  others :: "(string \<times> json) list"

record TRequestMessage =
  req_id :: int
  req_createdAt :: int
  req_action :: string
  req_params :: TParams
  req_responseWanted :: bool
  req_expiresAt :: int
  req_sourceUri :: string

text \<open>
  \<open>Error\<close> carries its message; \<open>ClosedError\<close> and \<open>TimeoutError\<close> are the two imported
  error classes.
\<close>

datatype error = Error string | ClosedError | TimeoutError string

text \<open>
  A zeromq socket after its set-up (\<open>socket(type)\<close>, \<open>identity = ...\<close>, then \<open>bindSync\<close> or
  \<open>connect\<close>). What a component does to its sockets is appended to a transport log.
\<close>

record Socket =
  sock_type :: string
  identity :: string
  endpoint :: string

datatype 'p transport_event =
    Bound Socket
  | Connected Socket
  | Sent Socket 'p
  | Closed Socket

text \<open>
  A promise created by \<open>send\<close> is named by a number. Its \<open>resolve\<close> and \<open>reject\<close> functions
  are the only way the client touches it: every call of one of them is appended to the
  settlement log, in the order of the calls. The state of a promise is decided by the first
  entry that names it (later calls are ignored by a JavaScript promise).
\<close>

datatype outcome = Fulfilled json | Rejected error

type_synonym settlement_log = "(nat \<times> outcome) list"

definition promiseState :: "settlement_log \<Rightarrow> nat \<Rightarrow> outcome option" where
  "promiseState l p = map_of l p"

record TCallbackInformation =
  cb_createdAt :: int
  cb_expiresAt :: int
  cb_promise :: nat
  cb_action :: string
  cb_sourceUri :: string

record TClientOptions =
  opt_bindPort :: int
  opt_protocol :: "TSupportedProtocols option"
  opt_host :: "string option"
  opt_checkTimeoutsInterval :: "int option"
  opt_defaultTimeout :: "int option"

text \<open>What the process reads from its environment: \<open>process.pid\<close>, the output of
  \<open>hostname -i\<close> and \<open>os.hostname()\<close>.\<close>

record env =
  pid :: nat
  hostname_i :: string
  os_hostname :: string

definition MAX_ID :: int where "MAX_ID = 10000000"
definition DEFAULT_TIMEOUT :: int where "DEFAULT_TIMEOUT = 250"
definition DEFAULT_PROTOCOL :: TSupportedProtocols where "DEFAULT_PROTOCOL = tcp"
definition CHECK_TIMEOUTS_INTERVAL :: int where "CHECK_TIMEOUTS_INTERVAL = 100"
definition MIN_PORT :: int where "MIN_PORT = 1024"
definition MAX_PORT :: int where "MAX_PORT = 49151"

section \<open>Strings\<close>

fun digits :: "nat \<Rightarrow> string" where
  "digits n =
     (if n < 10 then [''0123456789'' ! n]
      else digits (n div 10) @ [''0123456789'' ! (n mod 10)])"

declare digits.simps [simp del]

text \<open>A number inside a template string.\<close>

definition show_int :: "int \<Rightarrow> string" where
  "show_int i = (if i < 0 then CHR ''-'' # digits (nat (- i)) else digits (nat i))"

definition show_protocol :: "TSupportedProtocols \<Rightarrow> string" where
  "show_protocol p = (case p of tcp \<Rightarrow> ''tcp'' | ipc \<Rightarrow> ''ipc'')"

text \<open>\<open>String.prototype.indexOf\<close>: the first position of the needle, or \<open>-1\<close>.\<close>

fun indexOf_from :: "string \<Rightarrow> string \<Rightarrow> int \<Rightarrow> int" where
  "indexOf_from [] needle i = (if needle = [] then i else - 1)"
| "indexOf_from (c # cs) needle i =
     (if take (length needle) (c # cs) = needle then i else indexOf_from cs needle (i + 1))"

definition indexOf :: "string \<Rightarrow> string \<Rightarrow> int" where
  "indexOf s needle = indexOf_from s needle 0"

text \<open>The class \<open>\s\<close> of a regular expression, on ASCII.\<close>

definition is_space :: "char \<Rightarrow> bool" where
  "is_space c = (c \<in> set [CHR '' '', CHR 0x09, CHR 0x0A, CHR 0x0B, CHR 0x0C, CHR 0x0D])"

text \<open>\<open>getSystemHost\<close> (getSystemHost.ts).\<close>

definition getSystemHost :: "env \<Rightarrow> string" where
  "getSystemHost e =
     (let host = filter (\<lambda>c. \<not> is_space c) (hostname_i e)
      in if indexOf host ''127'' = 0 then os_hostname e else host)"

text \<open>\<open>x || d\<close> on an optional number: \<open>undefined\<close> and \<open>0\<close> are falsy.\<close>

definition or_default :: "int option \<Rightarrow> int \<Rightarrow> int" where
  "or_default x d = (case x of None \<Rightarrow> d | Some v \<Rightarrow> if v = 0 then d else v)"

section \<open>CommunicationClient\<close>

text \<open>
  The fields of the class, then what it does to the outside: the transport log, the
  settlement log, the events it emits, and the number of promises \<open>send\<close> has created.
  \<open>checkTimeoutsId\<close> holds the delay of the armed sweeper timer, \<open>None\<close> once cleared.
  A \<open>Map\<close> is the list of its entries in insertion order: \<open>get\<close> is \<open>map_of\<close>, \<open>set\<close> is
  \<open>AList.update\<close> (in place for a key that is present, at the end otherwise), \<open>delete\<close> is
  \<open>AList.delete\<close>.
\<close>

record CommunicationClient =
  bindPort :: int
  protocol :: TSupportedProtocols
  checkTimeoutsInterval :: int
  defaultTimeout :: int
  host :: "string option"
  bindSocket :: "Socket option"
  nextId :: int
  callbackStorage :: "(int \<times> TCallbackInformation) list"
  socketStorage :: "(string \<times> Socket) list"
  checkTimeoutsId :: "int option"
  transport :: "TRequestMessage transport_event list"
  settlements :: settlement_log
  emitted :: "(string \<times> json option) list"
  promises :: nat
  sys :: env

text \<open>
  \<open>validateOptions\<close> reads the options as the constructor has left them. A comparison with
  an absent number is false, and an absent number in a template string reads
  \<open>undefined\<close>.
\<close>

definition less_opt :: "int option \<Rightarrow> int \<Rightarrow> bool" where
  "less_opt x n = (case x of None \<Rightarrow> False | Some v \<Rightarrow> v < n)"

definition show_opt :: "int option \<Rightarrow> string" where
  "show_opt x = (case x of None \<Rightarrow> ''undefined'' | Some v \<Rightarrow> show_int v)"

definition validateOptions :: "TClientOptions \<Rightarrow> error option" where
  "validateOptions options =
     (if opt_bindPort options < MIN_PORT \<or> opt_bindPort options > MAX_PORT
      then Some (Error (''Port is out of range: '' @ show_int (opt_bindPort options)))
      else case (case opt_host options of
                   None \<Rightarrow> None
                 | Some h \<Rightarrow> if indexOf h ''://'' \<noteq> - 1 then Some h else None) of
        Some h \<Rightarrow>
          Some (Error (''Hostname cannot contain protocol, format is hostname:port (but got ''
                       @ h @ '')''))
      | None \<Rightarrow>
          if less_opt (opt_defaultTimeout options) 2
          then Some (Error (''Timeout cannot be set to value smaller then 2: ''
                            @ show_opt (opt_defaultTimeout options)))
          else if less_opt (opt_checkTimeoutsInterval options) 1
          then Some (Error (''Timeout check cannot be set to value smaller then 1: ''
                            @ show_opt (opt_defaultTimeout options)))
          else None)"

text \<open>The constructor: the three defaults, the validation, the fields, the sweeper timer.\<close>

definition newClient :: "env \<Rightarrow> TClientOptions \<Rightarrow> error + CommunicationClient" where
  "newClient e options =
     (let protocol' = (case opt_protocol options of None \<Rightarrow> DEFAULT_PROTOCOL | Some p \<Rightarrow> p);
          defaultTimeout' = or_default (opt_defaultTimeout options) DEFAULT_TIMEOUT;
          checkTimeoutsInterval' =
            or_default (opt_checkTimeoutsInterval options) CHECK_TIMEOUTS_INTERVAL;
          options1 = options\<lparr>
            opt_protocol := Some protocol',
            opt_defaultTimeout := Some defaultTimeout',
            opt_checkTimeoutsInterval := Some checkTimeoutsInterval' \<rparr>
      in case validateOptions options1 of
           Some err \<Rightarrow> Inl err
         | None \<Rightarrow> Inr \<lparr>
             bindPort = opt_bindPort options1,
             protocol = protocol',
             checkTimeoutsInterval = checkTimeoutsInterval',
             defaultTimeout = defaultTimeout',
             host = opt_host options1,
             bindSocket = None,
             nextId = 0,
             callbackStorage = [],
             socketStorage = [],
             checkTimeoutsId = Some checkTimeoutsInterval',
             transport = [],
             settlements = [],
             emitted = [],
             promises = 0,
             sys = e \<rparr>)"

text \<open>\<open>callback.reject(err)\<close> and \<open>callback.resolve(value)\<close>: one more entry of the settlement
  log.\<close>

definition reject :: "TCallbackInformation \<Rightarrow> error \<Rightarrow> CommunicationClient \<Rightarrow> CommunicationClient" where
  "reject callback err c = c\<lparr>settlements := settlements c @ [(cb_promise callback, Rejected err)]\<rparr>"

definition resolve :: "TCallbackInformation \<Rightarrow> json \<Rightarrow> CommunicationClient \<Rightarrow> CommunicationClient" where
  "resolve callback v c = c\<lparr>settlements := settlements c @ [(cb_promise callback, Fulfilled v)]\<rparr>"

definition close :: "CommunicationClient \<Rightarrow> CommunicationClient" where
  "close c =
     (let c1 = (case bindSocket c of None \<Rightarrow> c
                | Some s \<Rightarrow> c\<lparr>transport := transport c @ [Closed s]\<rparr>);
          c2 = (case checkTimeoutsId c1 of None \<Rightarrow> c1
                | Some t \<Rightarrow> c1\<lparr>checkTimeoutsId := None\<rparr>);
          c3 = c2\<lparr>transport := transport c2 @ map (\<lambda>(uri, pushSocket). Closed pushSocket) (socketStorage c2)\<rparr>;
          c4 = c3\<lparr>socketStorage := []\<rparr>
      in fold (\<lambda>(id', callback). reject callback ClosedError) (callbackStorage c4) c4)"

definition getHost :: "CommunicationClient \<Rightarrow> string \<times> CommunicationClient" where
  "getHost c =
     (case host c of
        Some h \<Rightarrow> (h, c)
      | None \<Rightarrow> (getSystemHost (sys c), c\<lparr>host := Some (getSystemHost (sys c))\<rparr>))"

definition getBindSocketIdentity :: "CommunicationClient \<Rightarrow> string" where
  "getBindSocketIdentity c = ''bind'' @ show_int (int (pid (sys c)))"

definition getClientSocketIdentity :: "CommunicationClient \<Rightarrow> string" where
  "getClientSocketIdentity c = ''client'' @ show_int (int (pid (sys c)))"

definition getBindUri :: "CommunicationClient \<Rightarrow> string \<times> CommunicationClient" where
  "getBindUri c =
     (case getHost c of (h, c1) \<Rightarrow>
        (show_protocol (protocol c1) @ ''://'' @ h @ '':'' @ show_int (bindPort c1), c1))"

definition getUri :: "CommunicationClient \<Rightarrow> string \<Rightarrow> string" where
  "getUri c address = show_protocol (protocol c) @ ''://'' @ address"

definition getBindSocket :: "CommunicationClient \<Rightarrow> Socket \<times> CommunicationClient" where
  "getBindSocket c =
     (case getBindUri c of (uri, c1) \<Rightarrow>
        (let s = \<lparr>sock_type = ''pull'', identity = getBindSocketIdentity c1, endpoint = uri\<rparr>
         in (s, c1\<lparr>transport := transport c1 @ [Bound s]\<rparr>)))"

text \<open>\<open>bindInternal\<close> binds the socket; the listener it installs is \<open>onMessage\<close> below.\<close>

definition bindInternal :: "CommunicationClient \<Rightarrow> CommunicationClient" where
  "bindInternal c = (case getBindSocket c of (s, c1) \<Rightarrow> c1\<lparr>bindSocket := Some s\<rparr>)"

text \<open>
  The listener of the bound socket, run on one payload of \<open>len\<close> bytes; \<open>parsed\<close> is what
  \<open>JSON.parse\<close> made of it, \<open>None\<close> when it threw. \<open>messageObject['size'] = ...\<close> sets a
  property of the decoded object, \<open>messageObject.id\<close> reads one; the store's keys are
  numbers, so an id that is missing or not a number finds nothing. A decoded value that is
  not an object (it has no \<open>id\<close>) leaves the client as it is.
\<close>

definition onMessage :: "CommunicationClient \<Rightarrow> nat \<Rightarrow> json option \<Rightarrow> CommunicationClient" where
  "onMessage c len parsed =
     (case parsed of
        None \<Rightarrow> c\<lparr>emitted := emitted c @ [(''error'', None)]\<rparr>
      | Some (JObj props) \<Rightarrow>
          (let messageObject = AList.update ''size'' (JNum (int len)) props
           in case map_of messageObject ''id'' of
                Some (JNum i) \<Rightarrow>
                  (case map_of (callbackStorage c) i of
                     None \<Rightarrow> c
                   | Some possibleCallback \<Rightarrow>
                       resolve possibleCallback (JObj messageObject)
                         (c\<lparr>callbackStorage := AList.delete i (callbackStorage c)\<rparr>))
              | _ \<Rightarrow> c)
      | Some _ \<Rightarrow> c)"

definition getNextId :: "CommunicationClient \<Rightarrow> int \<times> CommunicationClient" where
  "getNextId c =
     (let nextId' = nextId c;
          c1 = c\<lparr>nextId := nextId c + 1\<rparr>;
          c2 = (if nextId c1 > MAX_ID then c1\<lparr>nextId := 0\<rparr> else c1)
      in (nextId', c2))"

definition getTimeout :: "CommunicationClient \<Rightarrow> TParams \<Rightarrow> int" where
  "getTimeout c params = or_default (timeout params) (defaultTimeout c)"

definition createPushSocket :: "CommunicationClient \<Rightarrow> string \<Rightarrow> Socket \<times> CommunicationClient" where
  "createPushSocket c uri =
     (let pushSocket = \<lparr>sock_type = ''push'', identity = getClientSocketIdentity c, endpoint = uri\<rparr>;
          c1 = c\<lparr>transport := transport c @ [Connected pushSocket]\<rparr>;
          c2 = c1\<lparr>socketStorage := AList.update uri pushSocket (socketStorage c1)\<rparr>
      in (pushSocket, c2))"

definition getPushSocket :: "CommunicationClient \<Rightarrow> string \<Rightarrow> Socket \<times> CommunicationClient" where
  "getPushSocket c uri =
     (case map_of (socketStorage c) uri of
        Some s \<Rightarrow> (s, c)
      | None \<Rightarrow> createPushSocket c uri)"

text \<open>
  \<open>now\<close> is the reading of \<open>Date.now()\<close> in the turn that runs the call; the calls a
  \<open>fireMulti\<close> or \<open>sendMulti\<close> makes in its one turn read the same clock value.
\<close>

definition sendRaw ::
  "CommunicationClient \<Rightarrow> int \<Rightarrow> string \<Rightarrow> string \<Rightarrow> TParams \<Rightarrow> bool
     \<Rightarrow> TRequestMessage \<times> CommunicationClient" where
  "sendRaw c now address action params responseWanted =
     (case getNextId c of (id', c1) \<Rightarrow>
        (let createdAt = now;
             expiresAt = createdAt + getTimeout c1 params
         in case getBindUri c1 of (localUri, c2) \<Rightarrow>
              (let message = \<lparr>
                     req_id = id',
                     req_createdAt = createdAt,
                     req_action = action,
                     req_params = params,
                     req_responseWanted = responseWanted,
                     req_expiresAt = expiresAt,
                     req_sourceUri = localUri \<rparr>;
                   c3 = (if bindSocket c2 = None \<and> req_responseWanted message
                         then bindInternal c2 else c2);
                   uri = getUri c3 address
               in case getPushSocket c3 uri of (pushSocket, c4) \<Rightarrow>
                    (message, c4\<lparr>transport := transport c4 @ [Sent pushSocket message]\<rparr>))))"

definition fire :: "CommunicationClient \<Rightarrow> int \<Rightarrow> string \<Rightarrow> string \<Rightarrow> TParams \<Rightarrow> CommunicationClient" where
  "fire c now address action params = snd (sendRaw c now address action params False)"

definition fireMulti ::
  "CommunicationClient \<Rightarrow> int \<Rightarrow> string list \<Rightarrow> string \<Rightarrow> TParams \<Rightarrow> CommunicationClient" where
  "fireMulti c now addresses action params =
     fold (\<lambda>uri c'. fire c' now uri action params) addresses c"

text \<open>
  \<open>send\<close> has no \<open>await\<close>: \<open>sendRaw\<close> and the executor of the new promise, which stores the
  callback, run in the turn of the call. The result is the promise and the client after
  that turn.
\<close>

definition send ::
  "CommunicationClient \<Rightarrow> int \<Rightarrow> string \<Rightarrow> string \<Rightarrow> TParams \<Rightarrow> nat \<times> CommunicationClient" where
  "send c now address action params =
     (case sendRaw c now address action params True of (message, c1) \<Rightarrow>
        (let p = promises c1;
             c2 = c1\<lparr>promises := p + 1\<rparr>;
             callback = \<lparr>
               cb_createdAt = req_createdAt message,
               cb_expiresAt = req_expiresAt message,
               cb_promise = p,
               cb_action = action,
               cb_sourceUri = req_sourceUri message \<rparr>
         in (p, c2\<lparr>callbackStorage := AList.update (req_id message) callback (callbackStorage c2)\<rparr>)))"

text \<open>\<open>addresses.map((uri) => this.send(uri, action, params))\<close>: the promises, in order.\<close>

fun sendAll ::
  "CommunicationClient \<Rightarrow> int \<Rightarrow> string list \<Rightarrow> string \<Rightarrow> TParams \<Rightarrow> nat list \<times> CommunicationClient" where
  "sendAll c now [] action params = ([], c)"
| "sendAll c now (uri # uris) action params =
     (case send c now uri action params of (p, c1) \<Rightarrow>
        (case sendAll c1 now uris action params of (ps, c2) \<Rightarrow> (p # ps, c2)))"

definition sendMulti ::
  "CommunicationClient \<Rightarrow> int \<Rightarrow> string list \<Rightarrow> string \<Rightarrow> TParams \<Rightarrow> bool
     \<Rightarrow> nat list \<times> CommunicationClient" where
  "sendMulti c now addresses action params responseWanted = sendAll c now addresses action params"

text \<open>
  \<open>Promise.all\<close> over the promises of \<open>sendMulti\<close>, read from the settlement log: rejected
  with the first rejection among them, fulfilled with all values once every one is
  fulfilled, \<open>None\<close> while pending.
\<close>

fun firstRejection :: "settlement_log \<Rightarrow> nat list \<Rightarrow> settlement_log \<Rightarrow> error option" where
  "firstRejection seen ps [] = None"
| "firstRejection seen ps ((p, out) # l) =
     (case out of
        Rejected err \<Rightarrow>
          (if p \<in> set ps \<and> map_of seen p = None then Some err
           else firstRejection (seen @ [(p, out)]) ps l)
      | Fulfilled v \<Rightarrow> firstRejection (seen @ [(p, out)]) ps l)"

fun fulfilledValues :: "settlement_log \<Rightarrow> nat list \<Rightarrow> json list option" where
  "fulfilledValues l [] = Some []"
| "fulfilledValues l (p # ps) =
     (case promiseState l p of
        Some (Fulfilled v) \<Rightarrow> map_option (\<lambda>vs. v # vs) (fulfilledValues l ps)
      | _ \<Rightarrow> None)"

definition promiseAll :: "settlement_log \<Rightarrow> nat list \<Rightarrow> outcome option" where
  "promiseAll l ps =
     (case firstRejection [] ps l of
        Some err \<Rightarrow> Some (Rejected err)
      | None \<Rightarrow> map_option (\<lambda>vs. Fulfilled (JArr vs)) (fulfilledValues l ps))"

text \<open>
  One run of the sweeper at clock reading \<open>time\<close>. \<open>Map.forEach\<close> visits the entries in
  insertion order; the callback deletes only the entry it is visiting, so the entries
  visited are those present at the start.
\<close>

definition sweepEntry :: "int \<Rightarrow> int \<times> TCallbackInformation \<Rightarrow> CommunicationClient \<Rightarrow> CommunicationClient" where
  "sweepEntry time entry c =
     (case entry of (id', callback) \<Rightarrow>
        if cb_expiresAt callback > time then c
        else (let c1 = reject callback (TimeoutError ''Timeout error'') c
              in c1\<lparr>callbackStorage := AList.delete id' (callbackStorage c1)\<rparr>))"

definition checkTimeouts :: "CommunicationClient \<Rightarrow> int \<Rightarrow> CommunicationClient" where
  "checkTimeouts c time =
     (let c1 = fold (sweepEntry time) (callbackStorage c) c
      in c1\<lparr>checkTimeoutsId := Some (checkTimeoutsInterval c1)\<rparr>)"

section \<open>CommunicationServer\<close>

record TServerOptions =
  sopt_protocol :: "TSupportedProtocols option"
  sopt_host :: "string option"
  sopt_port :: int

text \<open>
  The handler given to \<open>listen\<close> is called with the decode error or with the decoded
  request. Its result is what awaiting it gives: the value, or the error it threw or
  rejected with.
\<close>

type_synonym handler = "error + TRequestMessage \<Rightarrow> error + json"

record CommunicationServer =
  srv_port :: int
  srv_protocol :: TSupportedProtocols
  listenSocket :: "Socket option"
  srv_host :: "string option"
  onRequest :: "handler option"
  srv_socketStorage :: "(string \<times> Socket) list"
  srv_transport :: "json transport_event list"
  srv_sys :: env

definition srv_validateOptions :: "TServerOptions \<Rightarrow> error option" where
  "srv_validateOptions options =
     (if sopt_port options < MIN_PORT \<or> sopt_port options > MAX_PORT
      then Some (Error (''Port is out of range: '' @ show_int (sopt_port options)))
      else case (case sopt_host options of
                   None \<Rightarrow> None
                 | Some h \<Rightarrow> if indexOf h ''://'' \<noteq> - 1 then Some h else None) of
        Some h \<Rightarrow>
          Some (Error (''Hostname cannot contain protocol, format is hostname:port (but got ''
                       @ h @ '')''))
      | None \<Rightarrow> None)"

definition newServer :: "env \<Rightarrow> TServerOptions \<Rightarrow> error + CommunicationServer" where
  "newServer e options =
     (let protocol' = (case sopt_protocol options of None \<Rightarrow> DEFAULT_PROTOCOL | Some p \<Rightarrow> p);
          options1 = options\<lparr>sopt_protocol := Some protocol'\<rparr>
      in case srv_validateOptions options1 of
           Some err \<Rightarrow> Inl err
         | None \<Rightarrow> Inr \<lparr>
             srv_port = sopt_port options1,
             srv_protocol = protocol',
             listenSocket = None,
             srv_host = sopt_host options1,
             onRequest = None,
             srv_socketStorage = [],
             srv_transport = [],
             srv_sys = e \<rparr>)"

definition srv_getHost :: "CommunicationServer \<Rightarrow> string \<times> CommunicationServer" where
  "srv_getHost s =
     (case srv_host s of
        Some h \<Rightarrow> (h, s)
      | None \<Rightarrow> (getSystemHost (srv_sys s), s\<lparr>srv_host := Some (getSystemHost (srv_sys s))\<rparr>))"

definition getListenSocketIdentity :: "CommunicationServer \<Rightarrow> string" where
  "getListenSocketIdentity s = ''server'' @ show_int (int (pid (srv_sys s)))"

definition getPushSocketIdentity :: "CommunicationServer \<Rightarrow> string" where
  "getPushSocketIdentity s = ''bind'' @ show_int (int (pid (srv_sys s)))"

definition getListenUri :: "CommunicationServer \<Rightarrow> string \<times> CommunicationServer" where
  "getListenUri s =
     (case srv_getHost s of (h, s1) \<Rightarrow>
        (show_protocol (srv_protocol s1) @ ''://'' @ h @ '':'' @ show_int (srv_port s1), s1))"

definition getListenSocket :: "CommunicationServer \<Rightarrow> Socket \<times> CommunicationServer" where
  "getListenSocket s =
     (case getListenUri s of (uri, s1) \<Rightarrow>
        (let sock = \<lparr>sock_type = ''pull'', identity = getListenSocketIdentity s1, endpoint = uri\<rparr>
         in (sock, s1\<lparr>srv_transport := srv_transport s1 @ [Bound sock]\<rparr>)))"

definition srv_createPushSocket :: "CommunicationServer \<Rightarrow> string \<Rightarrow> Socket \<times> CommunicationServer" where
  "srv_createPushSocket s uri =
     (let pushSocket = \<lparr>sock_type = ''push'', identity = getPushSocketIdentity s, endpoint = uri\<rparr>;
          s1 = s\<lparr>srv_transport := srv_transport s @ [Connected pushSocket]\<rparr>;
          s2 = s1\<lparr>srv_socketStorage := AList.update uri pushSocket (srv_socketStorage s1)\<rparr>
      in (pushSocket, s2))"

definition srv_getPushSocket :: "CommunicationServer \<Rightarrow> string \<Rightarrow> Socket \<times> CommunicationServer" where
  "srv_getPushSocket s uri =
     (case map_of (srv_socketStorage s) uri of
        Some sock \<Rightarrow> (sock, s)
      | None \<Rightarrow> srv_createPushSocket s uri)"

definition sendResponse :: "CommunicationServer \<Rightarrow> string \<Rightarrow> json \<Rightarrow> CommunicationServer" where
  "sendResponse s uri message =
     (case srv_getPushSocket s uri of (pushSocket, s1) \<Rightarrow>
        s1\<lparr>srv_transport := srv_transport s1 @ [Sent pushSocket message]\<rparr>)"

text \<open>\<open>listenInternal\<close> binds the socket; the listener it installs is \<open>onRequestMessage\<close>.\<close>

definition listenInternal :: "CommunicationServer \<Rightarrow> CommunicationServer" where
  "listenInternal s = (case getListenSocket s of (sock, s1) \<Rightarrow> s1\<lparr>listenSocket := Some sock\<rparr>)"

definition listen :: "CommunicationServer \<Rightarrow> handler \<Rightarrow> error + CommunicationServer" where
  "listen s onRequest' =
     (if listenSocket s \<noteq> None
      then Inl (Error (''Already listening on port '' @ show_int (srv_port s)))
      else Inr (listenInternal (s\<lparr>onRequest := Some onRequest'\<rparr>)))"

definition srv_close :: "CommunicationServer \<Rightarrow> CommunicationServer" where
  "srv_close s =
     (case listenSocket s of
        None \<Rightarrow> s
      | Some sock \<Rightarrow> s\<lparr>srv_transport := srv_transport s @ [Closed sock]\<rparr>)"

text \<open>
  The listener of the listening socket, run on one payload to its end: \<open>parsed\<close> is the
  request \<open>JSON.parse\<close> returned, or the error it threw. The handler is called first; a
  request that wants no response ends there. Otherwise the handler's result is awaited (an
  error ends the listener with nothing sent), the response object is built and
  \<open>sendResponse\<close> sends it to the request's \<open>sourceUri\<close>. The listener changes nothing of
  the server before the \<open>await\<close>, so \<open>s\<close> is the server as the listener finds it when
  the \<open>await\<close> returns.
\<close>

definition onRequestMessage :: "CommunicationServer \<Rightarrow> error + TRequestMessage \<Rightarrow> CommunicationServer" where
  "onRequestMessage s parsed =
     (case onRequest s of
        None \<Rightarrow> s
      | Some onRequest' \<Rightarrow>
          (case parsed of
             Inl err \<Rightarrow> (let r = onRequest' (Inl err) in s)
           | Inr messageObject \<Rightarrow>
               (let resultPromise = onRequest' (Inr messageObject)
                in if \<not> req_responseWanted messageObject then s
                   else case resultPromise of
                          Inl err \<Rightarrow> s
                        | Inr result \<Rightarrow>
                            (case getListenUri s of (listenUri, s1) \<Rightarrow>
                               sendResponse s1 (req_sourceUri messageObject)
                                 (JObj [(''id'', JNum (req_id messageObject)),
                                        (''data'', result),
                                        (''sourceUri'', JStr listenUri)])))))"

section \<open>Notions used in the statements\<close>

text \<open>The payloads a transport log shows as sent, with the socket each went out on.\<close>

definition sent :: "'p transport_event list \<Rightarrow> (Socket \<times> 'p) list" where
  "sent evs = concat (map (\<lambda>ev. case ev of Sent k m \<Rightarrow> [(k, m)] | _ \<Rightarrow> []) evs)"

text \<open>An entry of the callback store whose expiry is at or before \<open>time\<close>.\<close>

definition expired :: "int \<Rightarrow> int \<times> TCallbackInformation \<Rightarrow> bool" where
  "expired time entry = (cb_expiresAt (snd entry) \<le> time)"

text \<open>\<open>n\<close> successive calls of \<open>getNextId\<close>: the ids drawn, in order.\<close>

fun drawIds :: "nat \<Rightarrow> CommunicationClient \<Rightarrow> int list \<times> CommunicationClient" where
  "drawIds 0 c = ([], c)"
| "drawIds (Suc n) c =
     (case getNextId c of (i, c1) \<Rightarrow> (case drawIds n c1 of (is, c2) \<Rightarrow> (i # is, c2)))"

section \<open>Pending calls and their futures\<close>

text \<open>
  What holds of the callback store and the settlement log while the futures of the stored
  calls are pending: the keys are distinct, no two entries share a promise, every stored
  promise has been created and is not settled, the log names created promises only, and
  names each at most once.
\<close>

definition pending_inv :: "CommunicationClient \<Rightarrow> bool" where
  "pending_inv c =
     (distinct (map fst (callbackStorage c)) \<and>
      distinct (map (\<lambda>entry. cb_promise (snd entry)) (callbackStorage c)) \<and>
      list_all (\<lambda>entry. cb_promise (snd entry) < promises c \<and>
                         promiseState (settlements c) (cb_promise (snd entry)) = None)
               (callbackStorage c) \<and>
      list_all (\<lambda>s. fst s < promises c) (settlements c) \<and>
      distinct (map fst (settlements c)))"

section \<open>The event loop\<close>

text \<open>
  The code runs in turns of a single-threaded event loop; a turn runs to its end before the
  next one starts. The turns of a client are the calls of its public methods, the listener
  of the bound socket handling one received payload, and the sweeper's timer firing. A
  payload that reaches the bound socket waits in the inbox until a listener turn takes it;
  a socket that is not bound, or is closed, receives and emits nothing. \<open>send\<close> and the
  listener are \<open>async\<close> functions without \<open>await\<close>, so each is one turn.
\<close>

record world =
  client :: CommunicationClient
  inbox :: "(nat \<times> json option) list"

datatype task =
    CallFire int string string TParams
  | CallFireMulti int "string list" string TParams
  | CallSend int string string TParams
  | CallSendMulti int "string list" string TParams bool
  | CallClose
  | Arrive nat "json option"
  | Listener
  | Timer int

definition listening :: "CommunicationClient \<Rightarrow> bool" where
  "listening c = (case bindSocket c of None \<Rightarrow> False | Some s \<Rightarrow> Closed s \<notin> set (transport c))"

fun turn :: "task \<Rightarrow> world \<Rightarrow> world" where
  "turn (CallFire now address action params) w =
     w\<lparr>client := fire (client w) now address action params\<rparr>"
| "turn (CallFireMulti now addresses action params) w =
     w\<lparr>client := fireMulti (client w) now addresses action params\<rparr>"
| "turn (CallSend now address action params) w =
     w\<lparr>client := snd (send (client w) now address action params)\<rparr>"
| "turn (CallSendMulti now addresses action params responseWanted) w =
     w\<lparr>client := snd (sendMulti (client w) now addresses action params responseWanted)\<rparr>"
| "turn CallClose w = w\<lparr>client := close (client w)\<rparr>"
| "turn (Arrive len parsed) w =
     (if listening (client w) then w\<lparr>inbox := inbox w @ [(len, parsed)]\<rparr> else w)"
| "turn Listener w =
     (case inbox w of
        [] \<Rightarrow> w
      | (len, parsed) # rest \<Rightarrow>
          if listening (client w)
          then \<lparr>client = onMessage (client w) len parsed, inbox = rest\<rparr>
          else w)"
| "turn (Timer time) w =
     (case checkTimeoutsId (client w) of
        None \<Rightarrow> w
      | Some delay \<Rightarrow> w\<lparr>client := checkTimeouts (client w) time\<rparr>)"

definition run :: "task list \<Rightarrow> world \<Rightarrow> world" where
  "run ts w = fold turn ts w"

text \<open>The requests on the transport log that want a response, counted.\<close>

definition wantedSent :: "CommunicationClient \<Rightarrow> nat" where
  "wantedSent c = length (filter (\<lambda>km. req_responseWanted (snd km)) (sent (transport c)))"

text \<open>
  What holds of the server's socket cache: the socket stored for a URI is a push socket
  that was connected to that URI.
\<close>

definition srv_cache_inv :: "CommunicationServer \<Rightarrow> bool" where
  "srv_cache_inv s =
     list_all (\<lambda>entry. sock_type (snd entry) = ''push'' \<and> endpoint (snd entry) = fst entry \<and>
                        Connected (snd entry) \<in> set (srv_transport s))
              (srv_socketStorage s)"

section \<open>A worked scenario\<close>

text \<open>
  A client on port 3000 of host 10.0.0.5 and an echo server on 10.0.0.9:2000, both in
  process 4242. The client sends \<open>echo\<close> with \<open>{value: 7}\<close> at clock reading 1000, then
  \<open>slow\<close> with a timeout of 50.
\<close>

definition example_env :: env where
  "example_env = \<lparr>pid = 4242, hostname_i = ''10.0.0.5'' @ [CHR 0x0A], os_hostname = ''box''\<rparr>"

definition example_options :: TClientOptions where
  "example_options = \<lparr>opt_bindPort = 3000, opt_protocol = None, opt_host = None,
     opt_checkTimeoutsInterval = None, opt_defaultTimeout = None\<rparr>"

definition example_zero_timeout_options :: TClientOptions where
  "example_zero_timeout_options = example_options\<lparr>opt_defaultTimeout := Some 0\<rparr>"

definition example_small_timeout_options :: TClientOptions where
  "example_small_timeout_options = example_options\<lparr>opt_defaultTimeout := Some 1\<rparr>"

definition example_client :: CommunicationClient where
  "example_client = \<lparr>bindPort = 3000, protocol = tcp, checkTimeoutsInterval = 100,
     defaultTimeout = 250, host = None, bindSocket = None, nextId = 0, callbackStorage = [],
     socketStorage = [], checkTimeoutsId = Some 100, transport = [], settlements = [],
     emitted = [], promises = 0, sys = example_env\<rparr>"

definition example_near_ceiling :: CommunicationClient where
  "example_near_ceiling = example_client\<lparr>nextId := 9999999\<rparr>"

definition example_params :: TParams where
  "example_params = \<lparr>timeout = None, others = [(''value'', JNum 7)]\<rparr>"

definition example_zero_timeout_params :: TParams where
  "example_zero_timeout_params = \<lparr>timeout = Some 0, others = []\<rparr>"

definition example_request :: TRequestMessage where
  "example_request = fst (sendRaw example_client 1000 ''10.0.0.9:2000'' ''echo'' example_params True)"

definition example_fire_request :: TRequestMessage where
  "example_fire_request = example_request\<lparr>req_responseWanted := False\<rparr>"

definition example_pending :: CommunicationClient where
  "example_pending = snd (send example_client 1000 ''10.0.0.9:2000'' ''echo'' example_params)"

definition example_two_pending :: CommunicationClient where
  "example_two_pending =
     snd (send example_pending 1000 ''10.0.0.9:2000'' ''slow'' \<lparr>timeout = Some 50, others = []\<rparr>)"

text \<open>The handler of the echo server returns \<open>params.value\<close>.\<close>

definition echo :: handler where
  "echo r = (case r of
               Inl err \<Rightarrow> Inl err
             | Inr m \<Rightarrow> (case map_of (others (req_params m)) ''value'' of
                           None \<Rightarrow> Inr JNull
                         | Some v \<Rightarrow> Inr v))"

text \<open>The echo server once \<open>listen echo\<close> has returned.\<close>

definition example_server :: CommunicationServer where
  "example_server = \<lparr>srv_port = 2000, srv_protocol = tcp,
     listenSocket = Some \<lparr>sock_type = ''pull'', identity = ''server4242'',
                           endpoint = ''tcp://10.0.0.9:2000''\<rparr>,
     srv_host = Some ''10.0.0.9'', onRequest = Some echo, srv_socketStorage = [],
     srv_transport = [Bound \<lparr>sock_type = ''pull'', identity = ''server4242'',
                              endpoint = ''tcp://10.0.0.9:2000''\<rparr>],
     srv_sys = example_env\<rparr>"

definition example_server_options :: TServerOptions where
  "example_server_options = \<lparr>sopt_protocol = None, sopt_host = Some ''10.0.0.9'', sopt_port = 2000\<rparr>"

definition example_reply_socket :: Socket where
  "example_reply_socket =
     \<lparr>sock_type = ''push'', identity = ''bind4242'', endpoint = ''tcp://10.0.0.5:3000''\<rparr>"

text \<open>The response the echo server sends for \<open>example_request\<close>; its payload is 51 bytes.\<close>

definition example_response_props :: "(string \<times> json) list" where
  "example_response_props =
     [(''id'', JNum 0), (''data'', JNum 7), (''sourceUri'', JStr ''tcp://10.0.0.9:2000'')]"

definition example_response :: json where
  "example_response = JObj example_response_props"

text \<open>The client in the event loop, with nothing received yet.\<close>

definition example_world :: world where
  "example_world = \<lparr>client = example_client, inbox = []\<rparr>"

text \<open>The echo server after it has answered \<open>example_request\<close> once.\<close>

definition example_server_replied :: CommunicationServer where
  "example_server_replied = onRequestMessage example_server (Inr example_request)"

section \<open>Frame lemmas of the client\<close>

lemma sent_simps [simp]:
  "sent [] = []"
  "sent (Bound k # evs) = sent evs"
  "sent (Connected k # evs) = sent evs"
  "sent (Closed k # evs) = sent evs"
  "sent (Sent k m # evs) = (k, m) # sent evs"
  "sent (evs @ evs') = sent evs @ sent evs'"
  by (simp_all add: sent_def)

lemma getNextId_frame [simp]:
  "callbackStorage (snd (getNextId c)) = callbackStorage c"
  "settlements (snd (getNextId c)) = settlements c"
  "promises (snd (getNextId c)) = promises c"
  "transport (snd (getNextId c)) = transport c"
  "socketStorage (snd (getNextId c)) = socketStorage c"
  "bindSocket (snd (getNextId c)) = bindSocket c"
  "defaultTimeout (snd (getNextId c)) = defaultTimeout c"
  "emitted (snd (getNextId c)) = emitted c"
  "fst (getNextId c) = nextId c"
  by (simp_all add: getNextId_def Let_def)

lemma getBindUri_frame [simp]:
  "callbackStorage (snd (getBindUri c)) = callbackStorage c"
  "settlements (snd (getBindUri c)) = settlements c"
  "promises (snd (getBindUri c)) = promises c"
  "transport (snd (getBindUri c)) = transport c"
  "socketStorage (snd (getBindUri c)) = socketStorage c"
  "bindSocket (snd (getBindUri c)) = bindSocket c"
  "defaultTimeout (snd (getBindUri c)) = defaultTimeout c"
  "emitted (snd (getBindUri c)) = emitted c"
  by (simp_all add: getBindUri_def getHost_def split_beta split: option.splits)

lemma bindInternal_frame [simp]:
  "callbackStorage (bindInternal c) = callbackStorage c"
  "settlements (bindInternal c) = settlements c"
  "promises (bindInternal c) = promises c"
  "socketStorage (bindInternal c) = socketStorage c"
  "defaultTimeout (bindInternal c) = defaultTimeout c"
  "emitted (bindInternal c) = emitted c"
  "sent (transport (bindInternal c)) = sent (transport c)"
  by (simp_all add: bindInternal_def getBindSocket_def split_beta Let_def)

lemma bindInternal_transport:
  "\<exists>evs. transport (bindInternal c) = transport c @ evs \<and> sent evs = []"
  by (simp add: bindInternal_def getBindSocket_def split_beta Let_def)

lemma getPushSocket_frame [simp]:
  "callbackStorage (snd (getPushSocket c uri)) = callbackStorage c"
  "settlements (snd (getPushSocket c uri)) = settlements c"
  "promises (snd (getPushSocket c uri)) = promises c"
  "defaultTimeout (snd (getPushSocket c uri)) = defaultTimeout c"
  "emitted (snd (getPushSocket c uri)) = emitted c"
  "sent (transport (snd (getPushSocket c uri))) = sent (transport c)"
  by (simp_all add: getPushSocket_def createPushSocket_def Let_def split: option.splits)

lemma getPushSocket_transport:
  "\<exists>evs. transport (snd (getPushSocket c uri)) = transport c @ evs \<and> sent evs = []"
  by (simp add: getPushSocket_def createPushSocket_def Let_def split: option.splits)

lemma sendRaw_frame [simp]:
  "callbackStorage (snd (sendRaw c now address action params rw)) = callbackStorage c"
  "settlements (snd (sendRaw c now address action params rw)) = settlements c"
  "promises (snd (sendRaw c now address action params rw)) = promises c"
  "defaultTimeout (snd (sendRaw c now address action params rw)) = defaultTimeout c"
  "emitted (snd (sendRaw c now address action params rw)) = emitted c"
  by (simp_all add: sendRaw_def split_beta Let_def)

text \<open>The request record \<open>sendRaw\<close> builds, field by field.\<close>

lemma sendRaw_message:
  "fst (sendRaw c now address action params rw) =
     \<lparr>req_id = nextId c, req_createdAt = now, req_action = action, req_params = params,
      req_responseWanted = rw, req_expiresAt = now + getTimeout c params,
      req_sourceUri = fst (getBindUri c)\<rparr>"
  by (simp add: sendRaw_def split_beta Let_def getTimeout_def getBindUri_def getHost_def
      getNextId_def split: option.splits)

text \<open>The transmission of the request is the last thing \<open>sendRaw\<close> does to the transport.\<close>

lemma sendRaw_transport:
  "\<exists>evs k. transport (snd (sendRaw c now address action params rw))
      = transport c @ evs @ [Sent k (fst (sendRaw c now address action params rw))] \<and> sent evs = []"
proof -
  let ?c1 = "snd (getNextId c)"
  let ?c2 = "snd (getBindUri ?c1)"
  let ?c3 = "if bindSocket ?c2 = None \<and> rw then bindInternal ?c2 else ?c2"
  let ?c4 = "snd (getPushSocket ?c3 (getUri ?c3 address))"
  obtain e3 where e3: "transport ?c3 = transport c @ e3" "sent e3 = []"
    using bindInternal_transport[of ?c2] by (cases "bindSocket ?c2 = None \<and> rw") auto
  obtain e4 where e4: "transport ?c4 = transport ?c3 @ e4" "sent e4 = []"
    using getPushSocket_transport[of ?c3] by blast
  have "transport (snd (sendRaw c now address action params rw))
      = transport ?c4 @ [Sent (fst (getPushSocket ?c3 (getUri ?c3 address)))
                              (fst (sendRaw c now address action params rw))]"
    by (simp add: sendRaw_def split_beta Let_def)
  then show ?thesis using e3 e4 by (intro exI[of _ "e3 @ e4"]) auto
qed

lemma fire_frame:
  "callbackStorage (fire c now address action params) = callbackStorage c"
  "settlements (fire c now address action params) = settlements c"
  "promises (fire c now address action params) = promises c"
  by (simp_all add: fire_def)

lemma fireMulti_frame:
  "callbackStorage (fireMulti c now addresses action params) = callbackStorage c \<and>
   settlements (fireMulti c now addresses action params) = settlements c \<and>
   promises (fireMulti c now addresses action params) = promises c"
  unfolding fireMulti_def
  by (induction addresses arbitrary: c) (simp_all add: fire_frame)

lemma send_unfold:
  "send c now address action params =
     (promises c,
      (snd (sendRaw c now address action params True))\<lparr>
         promises := promises c + 1,
         callbackStorage := AList.update (nextId c)
           \<lparr>cb_createdAt = now, cb_expiresAt = now + getTimeout c params, cb_promise = promises c,
            cb_action = action, cb_sourceUri = fst (getBindUri c)\<rparr> (callbackStorage c)\<rparr>)"
  by (simp add: send_def split_beta Let_def sendRaw_message)

lemma send_transport:
  "transport (snd (send c now address action params))
     = transport (snd (sendRaw c now address action params True))"
  by (simp add: send_unfold)

lemma send_new_events:
  "\<exists>evs k. transport (snd (send c now address action params)) = transport c @ evs
      \<and> sent evs = [(k, fst (sendRaw c now address action params True))]"
proof -
  obtain evs k where "transport (snd (sendRaw c now address action params True))
      = transport c @ evs @ [Sent k (fst (sendRaw c now address action params True))]" "sent evs = []"
    using sendRaw_transport[of c now address action params True] by blast
  then show ?thesis
    by (intro exI[of _ "evs @ [Sent k (fst (sendRaw c now address action params True))]"] exI[of _ k])
       (simp add: send_transport)
qed

lemma sendAll_new_events:
  "\<exists>evs. transport (snd (sendAll c now addresses action params)) = transport c @ evs
      \<and> map (\<lambda>km. req_responseWanted (snd km)) (sent evs) = replicate (length addresses) True"
proof (induction addresses arbitrary: c)
  case Nil
  then show ?case by simp
next
  case (Cons uri uris)
  let ?c1 = "snd (send c now uri action params)"
  obtain e1 k where e1: "transport ?c1 = transport c @ e1"
      "sent e1 = [(k, fst (sendRaw c now uri action params True))]"
    using send_new_events[of c now uri action params] by blast
  obtain e2 where e2: "transport (snd (sendAll ?c1 now uris action params)) = transport ?c1 @ e2"
      "map (\<lambda>km. req_responseWanted (snd km)) (sent e2) = replicate (length uris) True"
    using Cons.IH[of ?c1] by blast
  have "snd (sendAll c now (uri # uris) action params) = snd (sendAll ?c1 now uris action params)"
    by (simp add: split_beta)
  then show ?case
    using e1 e2 by (intro exI[of _ "e1 @ e2"]) (simp add: sendRaw_message)
qed

lemma sendAll_length: "length (fst (sendAll c now addresses action params)) = length addresses"
  by (induction addresses arbitrary: c) (simp_all add: split_beta)

section \<open>The listener, the sweeper and close\<close>

lemma onMessage_absent:
  assumes "map_of props ''id'' = Some (JNum i)" "map_of (callbackStorage c) i = None"
  shows "onMessage c len (Some (JObj props)) = c"
  using assms by (simp add: onMessage_def Let_def update_conv')

lemma onMessage_present:
  assumes "map_of props ''id'' = Some (JNum i)" "map_of (callbackStorage c) i = Some cb"
  shows "onMessage c len (Some (JObj props)) =
          c\<lparr>callbackStorage := AList.delete i (callbackStorage c),
            settlements := settlements c @
              [(cb_promise cb, Fulfilled (JObj (AList.update ''size'' (JNum (int len)) props)))]\<rparr>"
  using assms by (simp add: onMessage_def Let_def update_conv' resolve_def)

text \<open>
  The sweep over any list of entries: the store loses the keys of the expired ones, and
  each expired entry is rejected once, in order.
\<close>

lemma fold_sweepEntry_store:
  "callbackStorage (fold (sweepEntry time) xs c)
     = filter (\<lambda>entry. fst entry \<notin> fst ` set (filter (expired time) xs)) (callbackStorage c)"
proof (induction xs arbitrary: c)
  case Nil
  then show ?case by simp
next
  case (Cons x xs)
  obtain i cb where x: "x = (i, cb)" by (cases x)
  show ?case
  proof (cases "cb_expiresAt cb > time")
    case True
    then have "sweepEntry time x c = c" by (simp add: sweepEntry_def x)
    moreover have "\<not> expired time x" using True by (simp add: expired_def x)
    ultimately show ?thesis using Cons.IH[of c] by simp
  next
    case False
    then have st: "callbackStorage (sweepEntry time x c) = AList.delete i (callbackStorage c)"
      by (simp add: sweepEntry_def x reject_def Let_def)
    have ex: "expired time x" using False by (simp add: expired_def x)
    let ?K = "fst ` set (filter (expired time) xs)"
    have "callbackStorage (fold (sweepEntry time) (x # xs) c)
        = filter (\<lambda>entry. fst entry \<notin> ?K) (AList.delete i (callbackStorage c))"
      using Cons.IH[of "sweepEntry time x c"] st by simp
    also have "\<dots> = filter (\<lambda>entry. i \<noteq> fst entry \<and> fst entry \<notin> ?K) (callbackStorage c)"
      by (simp add: AList.delete_eq split_beta conj_commute)
    also have "\<dots> = filter (\<lambda>entry. fst entry \<notin> fst ` set (filter (expired time) (x # xs)))
                          (callbackStorage c)"
      using ex by (intro filter_cong) (auto simp: x)
    finally show ?thesis .
  qed
qed

lemma fold_sweepEntry_settlements:
  "settlements (fold (sweepEntry time) xs c)
     = settlements c @ map (\<lambda>entry. (cb_promise (snd entry), Rejected (TimeoutError ''Timeout error'')))
                          (filter (expired time) xs)"
proof (induction xs arbitrary: c)
  case Nil
  then show ?case by simp
next
  case (Cons x xs)
  obtain i cb where x: "x = (i, cb)" by (cases x)
  show ?case
    using Cons.IH[of "sweepEntry time x c"]
    by (simp add: x sweepEntry_def expired_def reject_def Let_def)
qed

text \<open>Keys are unique in a \<open>Map\<close>, so filtering by the keys of the expired entries is filtering
  by expiry.\<close>

lemma distinct_keys_filter:
  assumes "distinct (map fst xs)"
  shows "filter (\<lambda>entry. fst entry \<notin> fst ` set (filter P xs)) xs = filter (\<lambda>entry. \<not> P entry) xs"
proof (rule filter_cong[OF refl])
  fix x assume x: "x \<in> set xs"
  have "fst x \<in> fst ` set (filter P xs) \<longleftrightarrow> P x"
  proof
    assume "fst x \<in> fst ` set (filter P xs)"
    then obtain y where y: "y \<in> set xs" "P y" "fst y = fst x" by auto
    with assms x have "y = x" by (metis eq_key_imp_eq_value prod.collapse)
    with y show "P x" by simp
  next
    assume "P x" with x show "fst x \<in> fst ` set (filter P xs)" by auto
  qed
  then show "(fst x \<notin> fst ` set (filter P xs)) = (\<not> P x)" by simp
qed

lemma checkTimeouts_store:
  assumes "distinct (map fst (callbackStorage c))"
  shows "callbackStorage (checkTimeouts c time)
          = filter (\<lambda>entry. cb_expiresAt (snd entry) > time) (callbackStorage c)"
proof -
  have "callbackStorage (checkTimeouts c time)
      = filter (\<lambda>entry. fst entry \<notin> fst ` set (filter (expired time) (callbackStorage c)))
               (callbackStorage c)"
    by (simp add: checkTimeouts_def Let_def fold_sweepEntry_store)
  also have "\<dots> = filter (\<lambda>entry. \<not> expired time entry) (callbackStorage c)"
    by (rule distinct_keys_filter[OF assms])
  finally show ?thesis by (simp add: expired_def not_le)
qed

lemma checkTimeouts_settlements:
  "settlements (checkTimeouts c time)
     = settlements c @ map (\<lambda>entry. (cb_promise (snd entry), Rejected (TimeoutError ''Timeout error'')))
                          (filter (\<lambda>entry. cb_expiresAt (snd entry) \<le> time) (callbackStorage c))"
  using fold_sweepEntry_settlements[of time "callbackStorage c" c]
  by (simp add: checkTimeouts_def Let_def expired_def[abs_def])

lemma fold_reject_store:
  "callbackStorage (fold (\<lambda>(id', callback). reject callback err) xs c) = callbackStorage c"
  by (induction xs arbitrary: c) (simp_all add: reject_def split_beta)

lemma fold_reject_settlements:
  "settlements (fold (\<lambda>(id', callback). reject callback err) xs c)
     = settlements c @ map (\<lambda>entry. (cb_promise (snd entry), Rejected err)) xs"
  by (induction xs arbitrary: c) (simp_all add: reject_def split_beta)

lemma close_store: "callbackStorage (close c) = callbackStorage c"
  by (simp add: close_def Let_def fold_reject_store split: option.splits)

lemma close_settlements:
  "settlements (close c)
     = settlements c @ map (\<lambda>entry. (cb_promise (snd entry), Rejected ClosedError)) (callbackStorage c)"
  by (simp add: close_def Let_def fold_reject_settlements split: option.splits)

section \<open>The callback store keeps its keys distinct\<close>

lemma newClient_fresh:
  "newClient e options = Inr c \<Longrightarrow> nextId c = 0 \<and> callbackStorage c = [] \<and> settlements c = []"
  by (auto simp: newClient_def Let_def split: option.splits)

lemma send_store_distinct:
  "distinct (map fst (callbackStorage c)) \<Longrightarrow>
   distinct (map fst (callbackStorage (snd (send c now address action params))))"
  by (simp add: send_unfold distinct_update)

lemma onMessage_store_distinct:
  "distinct (map fst (callbackStorage c)) \<Longrightarrow>
   distinct (map fst (callbackStorage (onMessage c len parsed)))"
  by (simp add: onMessage_def resolve_def Let_def distinct_delete split: option.splits json.splits)

lemma checkTimeouts_store_distinct:
  "distinct (map fst (callbackStorage c)) \<Longrightarrow>
   distinct (map fst (callbackStorage (checkTimeouts c time)))"
  by (simp add: checkTimeouts_store distinct_map_filter)

section \<open>The scenario, evaluated\<close>

lemma show_int_examples:
  "show_int 3000 = ''3000''" "show_int 2000 = ''2000''" "show_int 4242 = ''4242''"
  by (simp_all add: show_int_def digits.simps)

lemma getSystemHost_example: "getSystemHost example_env = ''10.0.0.5''"
  by (simp add: getSystemHost_def example_env_def is_space_def indexOf_def)

lemma pid_example: "pid example_env = 4242"
  by (simp add: example_env_def)

lemmas client_defs = pid_example send_def sendRaw_def getNextId_def getTimeout_def or_default_def
  getBindUri_def getHost_def bindInternal_def getBindSocket_def getBindSocketIdentity_def
  getClientSocketIdentity_def getUri_def getPushSocket_def createPushSocket_def show_protocol_def
  MAX_ID_def Let_def

lemma newClient_example: "newClient example_env example_options = Inr example_client"
  by (simp add: newClient_def validateOptions_def example_options_def example_client_def
      or_default_def less_opt_def DEFAULT_TIMEOUT_def CHECK_TIMEOUTS_INTERVAL_def
      DEFAULT_PROTOCOL_def MIN_PORT_def MAX_PORT_def)

lemma example_request_eq:
  "example_request = \<lparr>req_id = 0, req_createdAt = 1000, req_action = ''echo'',
     req_params = example_params, req_responseWanted = True, req_expiresAt = 1250,
     req_sourceUri = ''tcp://10.0.0.5:3000''\<rparr>"
  by (simp add: example_request_def example_client_def example_params_def client_defs
        show_int_examples getSystemHost_example)

lemma example_pending_eq:
  "example_pending = \<lparr>bindPort = 3000, protocol = tcp, checkTimeoutsInterval = 100,
    defaultTimeout = 250, host = Some ''10.0.0.5'',
    bindSocket = Some \<lparr>sock_type = ''pull'', identity = ''bind4242'',
                        endpoint = ''tcp://10.0.0.5:3000''\<rparr>,
    nextId = 1,
    callbackStorage =
      [(0, \<lparr>cb_createdAt = 1000, cb_expiresAt = 1250, cb_promise = 0,
              cb_action = ''echo'', cb_sourceUri = ''tcp://10.0.0.5:3000''\<rparr>)],
    socketStorage =
      [(''tcp://10.0.0.9:2000'',
        \<lparr>sock_type = ''push'', identity = ''client4242'', endpoint = ''tcp://10.0.0.9:2000''\<rparr>)],
    checkTimeoutsId = Some 100,
    transport =
      [Bound \<lparr>sock_type = ''pull'', identity = ''bind4242'', endpoint = ''tcp://10.0.0.5:3000''\<rparr>,
       Connected \<lparr>sock_type = ''push'', identity = ''client4242'',
                  endpoint = ''tcp://10.0.0.9:2000''\<rparr>,
       Sent \<lparr>sock_type = ''push'', identity = ''client4242'', endpoint = ''tcp://10.0.0.9:2000''\<rparr>
            example_request],
    settlements = [], emitted = [], promises = 1, sys = example_env\<rparr>"
  unfolding example_request_eq
  by (simp add: example_pending_def example_client_def example_params_def client_defs
        show_int_examples getSystemHost_example)

lemma example_send_eq:
  "sendRaw example_client 1000 ''10.0.0.9:2000'' ''echo'' example_params True
     = (example_request, snd (sendRaw example_client 1000 ''10.0.0.9:2000'' ''echo'' example_params True))"
  "send example_client 1000 ''10.0.0.9:2000'' ''echo'' example_params = (0, example_pending)"
  by (simp_all add: example_request_def example_pending_def send_unfold example_client_def prod_eq_iff)

lemma example_client_sel:
  "callbackStorage example_client = []" "settlements example_client = []"
  by (simp_all add: example_client_def)

lemma example_pending_sel:
  "callbackStorage example_pending =
     [(0, \<lparr>cb_createdAt = 1000, cb_expiresAt = 1250, cb_promise = 0,
           cb_action = ''echo'', cb_sourceUri = ''tcp://10.0.0.5:3000''\<rparr>)]"
  "settlements example_pending = []"
  by (simp_all add: example_pending_eq)

lemma example_two_pending_sel:
  "callbackStorage example_two_pending =
     [(0, \<lparr>cb_createdAt = 1000, cb_expiresAt = 1250, cb_promise = 0,
           cb_action = ''echo'', cb_sourceUri = ''tcp://10.0.0.5:3000''\<rparr>),
      (1, \<lparr>cb_createdAt = 1000, cb_expiresAt = 1050, cb_promise = 1,
           cb_action = ''slow'', cb_sourceUri = ''tcp://10.0.0.5:3000''\<rparr>)]"
  "settlements example_two_pending = []"
  by (simp_all add: example_two_pending_def send_unfold example_pending_eq getTimeout_def
      or_default_def getBindUri_def getHost_def show_protocol_def show_int_examples)

text \<open>The echo server of the scenario is what the constructor and \<open>listen\<close> produce.\<close>

lemma listen_example:
  "(case newServer example_env example_server_options of
      Inl err \<Rightarrow> Inl err
    | Inr s \<Rightarrow> listen s echo) = Inr example_server"
  by (simp add: newServer_def srv_validateOptions_def example_server_options_def example_server_def
      listen_def listenInternal_def getListenSocket_def getListenUri_def srv_getHost_def
      getListenSocketIdentity_def show_protocol_def show_int_examples pid_example indexOf_def
      DEFAULT_PROTOCOL_def MIN_PORT_def MAX_PORT_def Let_def)

lemma example_server_reply:
  "sent (srv_transport (onRequestMessage example_server (Inr example_request)))
     = [(example_reply_socket, example_response)]"
  by (simp add: example_server_def example_request_eq example_params_def example_response_def
      example_response_props_def example_reply_socket_def echo_def
      onRequestMessage_def sendResponse_def srv_getPushSocket_def srv_createPushSocket_def
      getListenUri_def srv_getHost_def getPushSocketIdentity_def show_protocol_def Let_def
      show_int_examples pid_example)

section \<open>The id counter\<close>

lemma getNextId_nextId:
  "nextId (snd (getNextId c)) = (if nextId c + 1 > MAX_ID then 0 else nextId c + 1)"
  by (simp add: getNextId_def Let_def)

lemma getNextId_mod:
  assumes "0 \<le> nextId c" "nextId c \<le> MAX_ID"
  shows "nextId (snd (getNextId c)) = (nextId c + 1) mod (MAX_ID + 1)"
  using assms by (simp add: getNextId_nextId MAX_ID_def)

text \<open>From a counter in range, the k-th id drawn is the counter plus k, modulo the length
  of the cycle.\<close>

lemma drawIds_mod:
  "0 \<le> nextId c \<Longrightarrow> nextId c \<le> MAX_ID \<Longrightarrow>
   fst (drawIds n c) = map (\<lambda>k. (nextId c + int k) mod (MAX_ID + 1)) [0..<n]"
proof (induction n arbitrary: c)
  case 0
  then show ?case by simp
next
  case (Suc n)
  let ?c1 = "snd (getNextId c)"
  have n1: "nextId ?c1 = (nextId c + 1) mod (MAX_ID + 1)"
    by (rule getNextId_mod[OF Suc.prems])
  have r: "0 \<le> nextId ?c1" "nextId ?c1 \<le> MAX_ID"
    using n1 by (simp_all add: MAX_ID_def)
  have ih: "fst (drawIds n ?c1) = map (\<lambda>k. (nextId ?c1 + int k) mod (MAX_ID + 1)) [0..<n]"
    by (rule Suc.IH[OF r])
  have shift: "map (\<lambda>k. (nextId ?c1 + int k) mod (MAX_ID + 1)) [0..<n]
      = map (\<lambda>k. (nextId c + int k) mod (MAX_ID + 1)) (map Suc [0..<n])"
    by (simp add: n1 mod_simps algebra_simps)
  have hd: "nextId c = (nextId c + int 0) mod (MAX_ID + 1)"
    using Suc.prems by (simp add: MAX_ID_def)
  have "fst (drawIds (Suc n) c) = nextId c # fst (drawIds n ?c1)"
    by (simp add: split_beta)
  also have "\<dots> = map (\<lambda>k. (nextId c + int k) mod (MAX_ID + 1)) (0 # map Suc [0..<n])"
    using ih shift hd by simp
  also have "0 # map Suc [0..<n] = [0..<Suc n]"
    by (simp add: upt_conv_Cons map_Suc_upt del: upt_Suc)
  finally show ?case .
qed

lemma drawIds_distinct:
  assumes "0 \<le> nextId c" "nextId c \<le> MAX_ID" "int n \<le> MAX_ID + 1"
  shows "distinct (fst (drawIds n c))"
proof -
  have "inj_on (\<lambda>k. (nextId c + int k) mod (MAX_ID + 1)) {0..<n}"
  proof (rule inj_onI)
    fix x y assume x: "x \<in> {0..<n}" and y: "y \<in> {0..<n}"
      and eq: "(nextId c + int x) mod (MAX_ID + 1) = (nextId c + int y) mod (MAX_ID + 1)"
    have "((nextId c + int x) - nextId c) mod (MAX_ID + 1)
        = ((nextId c + int y) - nextId c) mod (MAX_ID + 1)"
      using eq by (rule mod_diff_cong) simp
    then have "(int x) mod (MAX_ID + 1) = (int y) mod (MAX_ID + 1)" by simp
    moreover have "int x < MAX_ID + 1" "int y < MAX_ID + 1" using x y assms(3) by auto
    ultimately show "x = y" by simp
  qed
  then show ?thesis
    by (simp add: drawIds_mod[OF assms(1,2)] distinct_map)
qed

lemma drawIds_fresh:
  assumes "nextId c = 0" "int n \<le> MAX_ID + 1"
  shows "fst (drawIds n c) = map int [0..<n]"
proof -
  have "fst (drawIds n c) = map (\<lambda>k. (nextId c + int k) mod (MAX_ID + 1)) [0..<n]"
    by (rule drawIds_mod) (simp_all add: assms MAX_ID_def)
  also have "\<dots> = map int [0..<n]"
    using assms by (intro map_cong) auto
  finally show ?thesis .
qed

section \<open>The server's reply path\<close>

lemma getListenUri_frame [simp]:
  "srv_socketStorage (snd (getListenUri s)) = srv_socketStorage s"
  "srv_transport (snd (getListenUri s)) = srv_transport s"
  "srv_sys (snd (getListenUri s)) = srv_sys s"
  by (simp_all add: getListenUri_def srv_getHost_def split_beta split: option.splits)

lemma onRequestMessage_not_wanted:
  "\<not> req_responseWanted m \<Longrightarrow> onRequestMessage s (Inr m) = s"
  by (simp add: onRequestMessage_def Let_def split: option.splits)

lemma onRequestMessage_wanted:
  assumes "onRequest s = Some h" "req_responseWanted m" "h (Inr m) = Inr result"
  shows "onRequestMessage s (Inr m) =
           sendResponse (snd (getListenUri s)) (req_sourceUri m)
             (JObj [(''id'', JNum (req_id m)), (''data'', result),
                    (''sourceUri'', JStr (fst (getListenUri s)))])"
  using assms by (simp add: onRequestMessage_def Let_def split_beta)

section \<open>The futures of stored calls stay pending\<close>

text \<open>
  \<open>pending_inv\<close> holds of a new client and is kept by \<open>send\<close>, \<open>fire\<close>, the listener and the
  sweeper.
\<close>

lemma promiseState_None: "promiseState l p = None \<longleftrightarrow> p \<notin> fst ` set l"
  by (simp add: promiseState_def map_of_eq_None_iff)

lemma pending_inv_iff:
  "pending_inv c \<longleftrightarrow>
     distinct (map fst (callbackStorage c)) \<and>
     distinct (map (\<lambda>entry. cb_promise (snd entry)) (callbackStorage c)) \<and>
     (\<forall>entry \<in> set (callbackStorage c).
        cb_promise (snd entry) < promises c \<and> cb_promise (snd entry) \<notin> fst ` set (settlements c)) \<and>
     (\<forall>s \<in> set (settlements c). fst s < promises c) \<and>
     distinct (map fst (settlements c))"
  by (simp add: pending_inv_def list_all_iff promiseState_None)

lemma pending_inv_cong:
  "callbackStorage c' = callbackStorage c \<Longrightarrow> settlements c' = settlements c \<Longrightarrow>
   promises c' = promises c \<Longrightarrow> pending_inv c' = pending_inv c"
  by (simp add: pending_inv_def)

lemma newClient_pending_inv: "newClient e options = Inr c \<Longrightarrow> pending_inv c"
  using newClient_fresh[of e options c]
  by (auto simp: pending_inv_def newClient_def Let_def split: option.splits)

lemma fire_pending_inv: "pending_inv c \<Longrightarrow> pending_inv (fire c now address action params)"
  by (simp add: pending_inv_cong[OF fire_frame(1) fire_frame(2) fire_frame(3)])

lemma set_update_subset: "set (AList.update k v al) \<subseteq> insert (k, v) (set al)"
  by (induction al) auto

lemma distinct_map_update:
  "distinct (map g al) \<Longrightarrow> g (k, v) \<notin> g ` set al \<Longrightarrow> distinct (map g (AList.update k v al))"
proof (induction al)
  case Nil
  then show ?case by simp
next
  case (Cons a al)
  have sub: "set (AList.update k v al) \<subseteq> insert (k, v) (set al)" by (rule set_update_subset)
  show ?case
  proof (cases "fst a = k")
    case True
    with Cons.prems show ?thesis by auto
  next
    case False
    have "g a \<notin> g ` set (AList.update k v al)"
      using Cons.prems sub by auto
    with False Cons show ?thesis by auto
  qed
qed

lemma send_pending_inv:
  assumes "pending_inv c"
  shows "pending_inv (snd (send c now address action params))"
proof -
  let ?cb = "\<lparr>cb_createdAt = now, cb_expiresAt = now + getTimeout c params, cb_promise = promises c,
            cb_action = action, cb_sourceUri = fst (getBindUri c)\<rparr>"
  let ?c' = "snd (send c now address action params)"
  have st: "callbackStorage ?c' = AList.update (nextId c) ?cb (callbackStorage c)"
    and se: "settlements ?c' = settlements c" and pr: "promises ?c' = Suc (promises c)"
    by (simp_all add: send_unfold)
  from assms have inv: "distinct (map fst (callbackStorage c))"
     "distinct (map (\<lambda>entry. cb_promise (snd entry)) (callbackStorage c))"
     "\<forall>entry \<in> set (callbackStorage c).
        cb_promise (snd entry) < promises c \<and> cb_promise (snd entry) \<notin> fst ` set (settlements c)"
     "\<forall>s \<in> set (settlements c). fst s < promises c"
     "distinct (map fst (settlements c))"
    by (simp_all add: pending_inv_iff)
  have fresh: "promises c \<notin> fst ` set (settlements c)" using inv(4) by auto
  have fresh2: "(\<lambda>entry. cb_promise (snd entry)) (nextId c, ?cb)
       \<notin> (\<lambda>entry. cb_promise (snd entry)) ` set (callbackStorage c)"
    using inv(3) by auto
  have d2: "distinct (map (\<lambda>entry. cb_promise (snd entry)) (callbackStorage ?c'))"
    unfolding st by (rule distinct_map_update[OF inv(2) fresh2])
  have all: "\<forall>entry \<in> set (callbackStorage ?c').
        cb_promise (snd entry) < promises ?c' \<and> cb_promise (snd entry) \<notin> fst ` set (settlements ?c')"
  proof
    fix entry assume "entry \<in> set (callbackStorage ?c')"
    then have "entry = (nextId c, ?cb) \<or> entry \<in> set (callbackStorage c)"
      unfolding st using set_update_subset[of "nextId c" ?cb "callbackStorage c"] by blast
    then show "cb_promise (snd entry) < promises ?c' \<and>
               cb_promise (snd entry) \<notin> fst ` set (settlements ?c')"
    proof
      assume "entry = (nextId c, ?cb)"
      then show ?thesis using fresh by (simp add: se pr)
    next
      assume "entry \<in> set (callbackStorage c)"
      then show ?thesis using inv(3) by (simp add: se pr less_Suc_eq)
    qed
  qed
  show ?thesis
    unfolding pending_inv_iff
    using d2 all inv(1,4,5) by (auto simp: st se pr distinct_update less_Suc_eq)
qed

lemma inv_parts:
  assumes "pending_inv c"
  shows "distinct (map fst (callbackStorage c))"
     "distinct (map (\<lambda>entry. cb_promise (snd entry)) (callbackStorage c))"
     "\<And>entry. entry \<in> set (callbackStorage c) \<Longrightarrow>
        cb_promise (snd entry) < promises c \<and> cb_promise (snd entry) \<notin> fst ` set (settlements c)"
     "\<And>s. s \<in> set (settlements c) \<Longrightarrow> fst s < promises c"
     "distinct (map fst (settlements c))"
  using assms by (simp_all add: pending_inv_iff)

lemma fst_in_image: "(p, out) \<in> set l \<Longrightarrow> p \<in> fst ` set l"
  by force

lemma promise_inj:
  assumes "distinct (map (\<lambda>entry. cb_promise (snd entry)) xs)" "x \<in> set xs" "y \<in> set xs"
    "cb_promise (snd x) = cb_promise (snd y)"
  shows "x = y"
  using assms by (meson distinct_map inj_onD)

lemma resolved_pending_inv:
  assumes inv: "pending_inv c" and cb: "map_of (callbackStorage c) i = Some cb"
  shows "pending_inv (c\<lparr>callbackStorage := AList.delete i (callbackStorage c),
                         settlements := settlements c @ [(cb_promise cb, out)]\<rparr>)"
proof -
  note p = inv_parts[OF inv]
  have mem: "(i, cb) \<in> set (callbackStorage c)" using cb by (rule map_of_SomeD)
  have del: "set (AList.delete i (callbackStorage c)) = {e \<in> set (callbackStorage c). fst e \<noteq> i}"
    by (auto simp: AList.delete_eq)
  have other: "cb_promise (snd e) \<noteq> cb_promise cb"
    if "e \<in> set (callbackStorage c)" "fst e \<noteq> i" for e
  proof
    assume "cb_promise (snd e) = cb_promise cb"
    then have "e = (i, cb)" using promise_inj[OF p(2) that(1) mem] by simp
    with that(2) show False by simp
  qed
  have d2: "distinct (map (\<lambda>entry. cb_promise (snd entry)) (AList.delete i (callbackStorage c)))"
    unfolding AList.delete_eq by (rule distinct_map_filter[OF p(2)])
  show ?thesis
    unfolding pending_inv_iff
    using p(1) d2 p(3) p(4) p(5) p(3)[OF mem] other
    by (auto simp: distinct_delete del)
qed

lemma onMessage_promises [simp]: "promises (onMessage c len parsed) = promises c"
  by (simp add: onMessage_def resolve_def Let_def split: option.splits json.splits)

lemma onMessage_pending_inv:
  assumes "pending_inv c"
  shows "pending_inv (onMessage c len parsed)"
proof -
  have emit: "pending_inv (c\<lparr>emitted := x\<rparr>)" for x
    using assms by (simp add: pending_inv_def)
  show ?thesis
    using assms emit resolved_pending_inv[OF assms]
    by (simp add: onMessage_def resolve_def Let_def split: option.splits json.splits)
qed

lemma fold_sweepEntry_promises: "promises (fold (sweepEntry time) xs c) = promises c"
  by (induction xs arbitrary: c) (simp_all add: sweepEntry_def reject_def Let_def split_beta)

lemma checkTimeouts_promises [simp]: "promises (checkTimeouts c time) = promises c"
  by (simp add: checkTimeouts_def Let_def fold_sweepEntry_promises)

lemma checkTimeouts_pending_inv:
  assumes inv: "pending_inv c"
  shows "pending_inv (checkTimeouts c time)"
proof -
  note p = inv_parts[OF inv]
  let ?g = "\<lambda>entry. cb_promise (snd entry)"
  let ?keep = "filter (\<lambda>entry. cb_expiresAt (snd entry) > time) (callbackStorage c)"
  let ?gone = "filter (\<lambda>entry. cb_expiresAt (snd entry) \<le> time) (callbackStorage c)"
  have st: "callbackStorage (checkTimeouts c time) = ?keep"
    by (rule checkTimeouts_store[OF p(1)])
  have se: "settlements (checkTimeouts c time)
      = settlements c @ map (\<lambda>entry. (?g entry, Rejected (TimeoutError ''Timeout error''))) ?gone"
    by (rule checkTimeouts_settlements)
  have fs: "map fst (settlements (checkTimeouts c time)) = map fst (settlements c) @ map ?g ?gone"
    by (simp add: se comp_def)
  have d1: "distinct (map fst ?keep)" by (rule distinct_map_filter[OF p(1)])
  have d2: "distinct (map ?g ?keep)" by (rule distinct_map_filter[OF p(2)])
  have d3: "distinct (map ?g ?gone)" by (rule distinct_map_filter[OF p(2)])
  have disj: "set (map fst (settlements c)) \<inter> set (map ?g ?gone) = {}"
  proof (rule ccontr)
    assume "set (map fst (settlements c)) \<inter> set (map ?g ?gone) \<noteq> {}"
    then obtain q where q: "q \<in> fst ` set (settlements c)" "q \<in> set (map ?g ?gone)" by auto
    then obtain e where "e \<in> set (callbackStorage c)" "q = ?g e" by auto
    with p(3)[of e] q(1) show False by simp
  qed
  have d5: "distinct (map fst (settlements (checkTimeouts c time)))"
    unfolding fs using p(5) d3 disj by simp
  have keep: "?g e < promises c \<and> ?g e \<notin> fst ` set (settlements (checkTimeouts c time))"
    if e: "e \<in> set ?keep" for e
  proof -
    have em: "e \<in> set (callbackStorage c)" "cb_expiresAt (snd e) > time" using e by auto
    have "?g e \<notin> set (map ?g ?gone)"
    proof
      assume "?g e \<in> set (map ?g ?gone)"
      then obtain y where y: "y \<in> set (callbackStorage c)" "cb_expiresAt (snd y) \<le> time" "?g e = ?g y"
        by auto
      then have "e = y" using promise_inj[OF p(2) em(1) y(1)] by simp
      with em(2) y(2) show False by simp
    qed
    moreover have "?g e \<notin> set (map fst (settlements c))" using p(3)[OF em(1)] by simp
    ultimately have "?g e \<notin> set (map fst (settlements (checkTimeouts c time)))"
      unfolding fs by simp
    then show ?thesis using p(3)[OF em(1)] by simp
  qed
  have s4: "fst s < promises c" if "s \<in> set (settlements (checkTimeouts c time))" for s
  proof -
    from that have "s \<in> set (settlements c) \<or>
        s \<in> (\<lambda>entry. (?g entry, Rejected (TimeoutError ''Timeout error''))) ` set ?gone"
      unfolding se by simp
    then show ?thesis
    proof
      assume "s \<in> set (settlements c)" then show ?thesis by (rule p(4))
    next
      assume "s \<in> (\<lambda>entry. (?g entry, Rejected (TimeoutError ''Timeout error''))) ` set ?gone"
      then obtain e where e: "e \<in> set ?gone" "s = (?g e, Rejected (TimeoutError ''Timeout error''))"
        by (rule imageE)
      from e(1) have "e \<in> set (callbackStorage c)" by simp
      with p(3)[of e] e(2) show ?thesis by simp
    qed
  qed
  show ?thesis
    unfolding pending_inv_iff st
    using d1 d2 d5 keep s4 by simp
qed

section \<open>Turns of the event loop\<close>

lemma sendRaw_wantedSent:
  "wantedSent (snd (sendRaw c now address action params rw)) = wantedSent c + (if rw then 1 else 0)"
proof -
  obtain evs k where "transport (snd (sendRaw c now address action params rw))
      = transport c @ evs @ [Sent k (fst (sendRaw c now address action params rw))]" "sent evs = []"
    using sendRaw_transport[of c now address action params rw] by blast
  then show ?thesis by (simp add: wantedSent_def sendRaw_message)
qed

lemma send_counts:
  "wantedSent (snd (send c now address action params)) = wantedSent c + 1"
  "promises (snd (send c now address action params)) = promises c + 1"
  using sendRaw_wantedSent[of c now address action params True]
  by (simp_all add: send_unfold wantedSent_def)

lemma fire_counts:
  "wantedSent (fire c now address action params) = wantedSent c"
  using sendRaw_wantedSent[of c now address action params False]
  by (simp add: fire_def)

lemma fireMulti_counts:
  "wantedSent (fireMulti c now addresses action params) = wantedSent c"
  unfolding fireMulti_def
  by (induction addresses arbitrary: c) (simp_all add: fire_counts)

lemma sendAll_counts:
  "wantedSent (snd (sendAll c now addresses action params)) = wantedSent c + length addresses \<and>
   promises (snd (sendAll c now addresses action params)) = promises c + length addresses"
  by (induction addresses arbitrary: c) (simp_all add: split_beta send_counts)

lemma onMessage_transport [simp]: "transport (onMessage c len parsed) = transport c"
  by (simp add: onMessage_def resolve_def Let_def split: option.splits json.splits)

lemma fold_sweepEntry_transport: "transport (fold (sweepEntry time) xs c) = transport c"
  by (induction xs arbitrary: c) (simp_all add: sweepEntry_def reject_def Let_def split_beta)

lemma checkTimeouts_transport [simp]: "transport (checkTimeouts c time) = transport c"
  by (simp add: checkTimeouts_def Let_def fold_sweepEntry_transport)

lemma fold_reject_other:
  "transport (fold (\<lambda>(id', callback). reject callback err) xs c) = transport c"
  "promises (fold (\<lambda>(id', callback). reject callback err) xs c) = promises c"
  by (induction xs arbitrary: c) (simp_all add: reject_def split_beta)

lemma sent_map_Closed: "sent (map (\<lambda>(uri, pushSocket). Closed pushSocket) xs) = []"
  by (induction xs) (simp_all add: split_beta)

lemma close_counts:
  "wantedSent (close c) = wantedSent c" "promises (close c) = promises c"
  by (simp_all add: close_def Let_def fold_reject_other wantedSent_def sent_map_Closed
      split: option.splits)

lemma listener_timer_counts [simp]:
  "wantedSent (onMessage c len parsed) = wantedSent c"
  "wantedSent (checkTimeouts c time) = wantedSent c"
  by (simp_all add: wantedSent_def)

lemma turn_counts:
  assumes "wantedSent (client w) = promises (client w)"
  shows "wantedSent (client (turn t w)) = promises (client (turn t w))"
proof (cases t)
  case (CallSendMulti now addresses action params rw)
  then show ?thesis
    using assms sendAll_counts[of "client w" now addresses action params]
    by (simp add: sendMulti_def)
qed (use assms in \<open>simp_all add: fire_counts fire_frame fireMulti_counts fireMulti_frame send_counts close_counts
      split: list.splits option.splits prod.splits\<close>)

lemma run_counts:
  "wantedSent (client w) = promises (client w) \<Longrightarrow>
   wantedSent (client (run ts w)) = promises (client (run ts w))"
  unfolding run_def
  by (induction ts arbitrary: w) (simp_all add: turn_counts)

lemma turn_keeps_inbox:
  "t \<noteq> Listener \<Longrightarrow> take (length (inbox w)) (inbox (turn t w)) = inbox w"
  by (cases t) (simp_all split: option.splits)

section \<open>The server's socket cache\<close>

lemma srv_cache_inv_iff:
  "srv_cache_inv s \<longleftrightarrow>
     (\<forall>entry \<in> set (srv_socketStorage s).
        sock_type (snd entry) = ''push'' \<and> endpoint (snd entry) = fst entry \<and>
        Connected (snd entry) \<in> set (srv_transport s))"
  by (simp add: srv_cache_inv_def list_all_iff)

lemma newServer_cache_inv: "newServer e options = Inr s \<Longrightarrow> srv_cache_inv s"
  by (auto simp: newServer_def srv_cache_inv_def Let_def split: option.splits)

lemma getListenUri_value:
  "fst (getListenUri s) =
     show_protocol (srv_protocol s) @ ''://'' @
       (case srv_host s of Some h \<Rightarrow> h | None \<Rightarrow> getSystemHost (srv_sys s)) @
       '':'' @ show_int (srv_port s)"
  by (simp add: getListenUri_def srv_getHost_def split_beta split: option.splits)

lemma getListenUri_cache_inv: "srv_cache_inv (snd (getListenUri s)) = srv_cache_inv s"
  by (simp add: srv_cache_inv_def)

lemma srv_cache_inv_mono:
  assumes "srv_cache_inv s" "srv_socketStorage s' = srv_socketStorage s"
    "set (srv_transport s) \<subseteq> set (srv_transport s')"
  shows "srv_cache_inv s'"
  unfolding srv_cache_inv_iff
proof
  fix entry assume "entry \<in> set (srv_socketStorage s')"
  then have "entry \<in> set (srv_socketStorage s)" by (simp add: assms(2))
  with assms(1) have "sock_type (snd entry) = ''push'' \<and> endpoint (snd entry) = fst entry \<and>
      Connected (snd entry) \<in> set (srv_transport s)"
    by (simp add: srv_cache_inv_iff)
  with assms(3) show "sock_type (snd entry) = ''push'' \<and> endpoint (snd entry) = fst entry \<and>
      Connected (snd entry) \<in> set (srv_transport s')"
    by blast
qed

lemma listen_cache_inv:
  assumes "srv_cache_inv s" "listen s h = Inr s'"
  shows "srv_cache_inv s'"
proof -
  have s': "s' = listenInternal (s\<lparr>onRequest := Some h\<rparr>)"
    using assms(2) by (simp add: listen_def split: if_splits)
  have "srv_socketStorage s' = srv_socketStorage s"
    by (simp add: s' listenInternal_def getListenSocket_def split_beta Let_def)
  moreover have "set (srv_transport s) \<subseteq> set (srv_transport s')"
    by (auto simp: s' listenInternal_def getListenSocket_def split_beta Let_def)
  ultimately show ?thesis by (rule srv_cache_inv_mono[OF assms(1)])
qed

lemma srv_close_cache_inv:
  assumes "srv_cache_inv s"
  shows "srv_cache_inv (srv_close s)"
  by (rule srv_cache_inv_mono[OF assms]) (auto simp: srv_close_def split: option.splits)

lemma sendResponse_hit:
  assumes "map_of (srv_socketStorage s) uri = Some k"
  shows "sendResponse s uri message = s\<lparr>srv_transport := srv_transport s @ [Sent k message]\<rparr>"
  using assms by (simp add: sendResponse_def srv_getPushSocket_def)

lemma sendResponse_miss:
  assumes "map_of (srv_socketStorage s) uri = None"
  shows "sendResponse s uri message =
     s\<lparr>srv_transport := srv_transport s @
          [Connected \<lparr>sock_type = ''push'', identity = ''bind'' @ show_int (int (pid (srv_sys s))),
                      endpoint = uri\<rparr>,
           Sent \<lparr>sock_type = ''push'', identity = ''bind'' @ show_int (int (pid (srv_sys s))),
                 endpoint = uri\<rparr> message],
        srv_socketStorage := AList.update uri
          \<lparr>sock_type = ''push'', identity = ''bind'' @ show_int (int (pid (srv_sys s))),
           endpoint = uri\<rparr> (srv_socketStorage s)\<rparr>"
  using assms
  by (simp add: sendResponse_def srv_getPushSocket_def srv_createPushSocket_def
      getPushSocketIdentity_def Let_def)

lemma sendResponse_cache_inv:
  assumes "srv_cache_inv s"
  shows "srv_cache_inv (sendResponse s uri message)"
proof (cases "map_of (srv_socketStorage s) uri")
  case None
  let ?new = "\<lparr>sock_type = ''push'', identity = ''bind'' @ show_int (int (pid (srv_sys s))),
              endpoint = uri\<rparr>"
  let ?s' = "sendResponse s uri message"
  have st: "srv_socketStorage ?s' = AList.update uri ?new (srv_socketStorage s)"
    and tr: "srv_transport ?s' = srv_transport s @ [Connected ?new, Sent ?new message]"
    by (simp_all add: sendResponse_miss[OF None])
  show ?thesis
    unfolding srv_cache_inv_iff
  proof
    fix entry assume "entry \<in> set (srv_socketStorage ?s')"
    then have "entry = (uri, ?new) \<or> entry \<in> set (srv_socketStorage s)"
      unfolding st using set_update_subset[of uri ?new "srv_socketStorage s"] by blast
    then show "sock_type (snd entry) = ''push'' \<and> endpoint (snd entry) = fst entry \<and>
               Connected (snd entry) \<in> set (srv_transport ?s')"
    proof
      assume "entry = (uri, ?new)"
      then show ?thesis by (simp add: tr)
    next
      assume "entry \<in> set (srv_socketStorage s)"
      then show ?thesis using assms by (simp add: tr srv_cache_inv_iff)
    qed
  qed
next
  case (Some k)
  show ?thesis
    by (rule srv_cache_inv_mono[OF assms]) (auto simp: sendResponse_hit[OF Some])
qed

lemma onRequestMessage_cache_inv:
  assumes "srv_cache_inv s"
  shows "srv_cache_inv (onRequestMessage s parsed)"
  using assms sendResponse_cache_inv[of "snd (getListenUri s)"]
  by (simp add: onRequestMessage_def Let_def split_beta getListenUri_cache_inv
      split: option.splits sum.splits)

section \<open>The scenario in the event loop\<close>

lemma example_pending_inv: "pending_inv example_client" "pending_inv example_pending"
  by (simp_all add: pending_inv_def example_client_def example_pending_eq promiseState_def)

lemma close_breaks_pending_inv: "\<not> pending_inv (close example_pending)"
  by (simp add: pending_inv_def close_store close_settlements example_pending_sel promiseState_def)

lemma listening_example: "listening example_pending" "\<not> listening example_client"
  by (simp_all add: listening_def example_pending_eq example_client_def)

lemma example_world_sel: "client example_world = example_client" "inbox example_world = []"
  by (simp_all add: example_world_def)

lemma example_server_sel:
  "onRequest example_server = Some echo" "srv_socketStorage example_server = []"
  "srv_transport example_server = [Bound \<lparr>sock_type = ''pull'', identity = ''server4242'',
                              endpoint = ''tcp://10.0.0.9:2000''\<rparr>]"
  "srv_protocol example_server = tcp" "srv_host example_server = Some ''10.0.0.9''"
  "srv_port example_server = 2000" "srv_sys example_server = example_env"
  by (simp_all add: example_server_def)

lemma example_server_replied_eq:
  "example_server_replied = example_server\<lparr>
     srv_transport := [Bound \<lparr>sock_type = ''pull'', identity = ''server4242'',
                              endpoint = ''tcp://10.0.0.9:2000''\<rparr>,
                       Connected example_reply_socket,
                       Sent example_reply_socket example_response],
     srv_socketStorage := [(''tcp://10.0.0.5:3000'', example_reply_socket)]\<rparr>"
  by (simp add: example_server_replied_def example_server_def example_request_eq
      example_params_def example_response_def
      example_response_props_def example_reply_socket_def echo_def
      onRequestMessage_def sendResponse_def srv_getPushSocket_def srv_createPushSocket_def
      getListenUri_def srv_getHost_def getPushSocketIdentity_def show_protocol_def Let_def
      show_int_examples pid_example)

section \<open>The claims\<close>

subsection \<open>C1: correlation of an inbound response\<close>

text \<open>
  C1, as the code has it. On a client whose stored calls all have pending futures
  (\<open>pending_inv\<close>), for a decoded response record whose \<open>id\<close> is the number \<open>i\<close>: if the
  store has no callback under \<open>i\<close>, the listener leaves the whole client (so the store)
  unchanged; if it has one, its future was pending, the entry is deleted, and the future is
  settled exactly once: the listener makes one call of \<open>resolve\<close>, after which the future is
  fulfilled and the settlement log holds exactly one entry for it, and \<open>pending_inv\<close> still
  holds, so no stored call refers to that future any more. The value the future is
  fulfilled with is the whole decoded record with the \<open>size\<close> property the listener has set
  on it, not the \<open>data\<close> payload alone.
\<close>

theorem onMessage_correlation:
  assumes "pending_inv c" and "map_of props ''id'' = Some (JNum i)"
  shows "(map_of (callbackStorage c) i = None \<longrightarrow> onMessage c len (Some (JObj props)) = c) \<and>
         (\<forall>cb. map_of (callbackStorage c) i = Some cb \<longrightarrow>
            promiseState (settlements c) (cb_promise cb) = None \<and>
            callbackStorage (onMessage c len (Some (JObj props))) = AList.delete i (callbackStorage c) \<and>
            map_of (callbackStorage (onMessage c len (Some (JObj props)))) i = None \<and>
            settlements (onMessage c len (Some (JObj props))) =
              settlements c @ [(cb_promise cb,
                 Fulfilled (JObj (AList.update ''size'' (JNum (int len)) props)))] \<and>
            promiseState (settlements (onMessage c len (Some (JObj props)))) (cb_promise cb)
              = Some (Fulfilled (JObj (AList.update ''size'' (JNum (int len)) props))) \<and>
            filter (\<lambda>s. fst s = cb_promise cb) (settlements (onMessage c len (Some (JObj props))))
              = [(cb_promise cb, Fulfilled (JObj (AList.update ''size'' (JNum (int len)) props)))] \<and>
            pending_inv (onMessage c len (Some (JObj props))))"
proof (intro conjI impI allI)
  assume "map_of (callbackStorage c) i = None"
  then show "onMessage c len (Some (JObj props)) = c"
    by (rule onMessage_absent[OF assms(2)])
next
  fix cb assume cb: "map_of (callbackStorage c) i = Some cb"
  let ?c' = "onMessage c len (Some (JObj props))"
  let ?v = "Fulfilled (JObj (AList.update ''size'' (JNum (int len)) props))"
  note eq = onMessage_present[OF assms(2) cb, of len]
  have mem: "(i, cb) \<in> set (callbackStorage c)" using cb by (rule map_of_SomeD)
  have un: "cb_promise cb \<notin> fst ` set (settlements c)"
    using inv_parts(3)[OF assms(1) mem] by simp
  show pend: "promiseState (settlements c) (cb_promise cb) = None"
    using un by (simp add: promiseState_None)
  show "callbackStorage ?c' = AList.delete i (callbackStorage c)"
    by (simp add: eq)
  show "map_of (callbackStorage ?c') i = None"
    by (simp add: eq delete_conv')
  show se: "settlements ?c' = settlements c @ [(cb_promise cb, ?v)]"
    by (simp add: eq)
  show "promiseState (settlements ?c') (cb_promise cb) = Some ?v"
    using pend by (simp add: se promiseState_def map_add_Some_iff)
  have "filter (\<lambda>s. fst s = cb_promise cb) (settlements c) = []"
    using un by (auto simp: filter_empty_conv dest: fst_in_image)
  then show "filter (\<lambda>s. fst s = cb_promise cb) (settlements ?c') = [(cb_promise cb, ?v)]"
    by (simp add: se)
  show "pending_inv ?c'" by (rule onMessage_pending_inv[OF assms(1)])
qed

text \<open>
  Both branches in the scenario: the echo response reaches the fresh client, which tracks
  nothing, and the client that is waiting for it.
\<close>

theorem onMessage_correlation_witness:
  "pending_inv example_client \<and> pending_inv example_pending \<and>
   map_of example_response_props ''id'' = Some (JNum 0) \<and>
   map_of (callbackStorage example_client) 0 = None \<and>
   onMessage example_client 51 (Some (JObj example_response_props)) = example_client \<and>
   map_of (callbackStorage example_pending) 0 = Some \<lparr>cb_createdAt = 1000, cb_expiresAt = 1250,
      cb_promise = 0, cb_action = ''echo'', cb_sourceUri = ''tcp://10.0.0.5:3000''\<rparr> \<and>
   promiseState (settlements example_pending) 0 = None \<and>
   callbackStorage (onMessage example_pending 51 (Some (JObj example_response_props))) = [] \<and>
   settlements (onMessage example_pending 51 (Some (JObj example_response_props))) =
     [(0, Fulfilled (JObj [(''id'', JNum 0), (''data'', JNum 7),
                           (''sourceUri'', JStr ''tcp://10.0.0.9:2000''), (''size'', JNum 51)]))] \<and>
   promiseState (settlements (onMessage example_pending 51 (Some (JObj example_response_props)))) 0 =
     Some (Fulfilled (JObj [(''id'', JNum 0), (''data'', JNum 7),
                            (''sourceUri'', JStr ''tcp://10.0.0.9:2000''), (''size'', JNum 51)])) \<and>
   pending_inv (onMessage example_pending 51 (Some (JObj example_response_props)))"
proof -
  let ?cb = "\<lparr>cb_createdAt = 1000, cb_expiresAt = 1250,
      cb_promise = 0, cb_action = ''echo'', cb_sourceUri = ''tcp://10.0.0.5:3000''\<rparr>"
  let ?c' = "onMessage example_pending 51 (Some (JObj example_response_props))"
  let ?v = "Fulfilled (JObj (AList.update ''size'' (JNum (int 51)) example_response_props))"
  have i: "map_of example_response_props ''id'' = Some (JNum 0)"
    by (simp add: example_response_props_def)
  have a: "map_of (callbackStorage example_client) 0 = None"
    by (simp add: example_client_sel)
  have p: "map_of (callbackStorage example_pending) 0 = Some ?cb"
    by (simp add: example_pending_sel)
  from onMessage_correlation[OF example_pending_inv(1) i, of 51] a
  have r1: "onMessage example_client 51 (Some (JObj example_response_props)) = example_client"
    by blast
  from onMessage_correlation[OF example_pending_inv(2) i, of 51] p
  have r: "promiseState (settlements example_pending) (cb_promise ?cb) = None \<and>
           callbackStorage ?c' = AList.delete 0 (callbackStorage example_pending) \<and>
           map_of (callbackStorage ?c') 0 = None \<and>
           settlements ?c' = settlements example_pending @ [(cb_promise ?cb, ?v)] \<and>
           promiseState (settlements ?c') (cb_promise ?cb) = Some ?v \<and>
           filter (\<lambda>s. fst s = cb_promise ?cb) (settlements ?c') = [(cb_promise ?cb, ?v)] \<and>
           pending_inv ?c'"
    by blast
  show ?thesis
    using example_pending_inv i a p r1 r
    by (simp add: example_pending_sel example_response_props_def promiseState_def)
qed

text \<open>
  C1 as stated fails on the echo round trip. The echo server answers the request of
  \<open>send(address, "echo", {value: 7})\<close> with \<open>{id: 0, data: 7, sourceUri}\<close>; the client's
  listener fulfils the promise of that call with the whole object, \<open>size\<close> included, and so
  not with 7.
\<close>

theorem onMessage_payload_counterexample:
  "sent (srv_transport (onRequestMessage example_server (Inr example_request)))
     = [(example_reply_socket, example_response)] \<and>
   promiseState (settlements (onMessage example_pending 51 (Some example_response))) 0
     = Some (Fulfilled (JObj [(''id'', JNum 0), (''data'', JNum 7),
                              (''sourceUri'', JStr ''tcp://10.0.0.9:2000''), (''size'', JNum 51)])) \<and>
   promiseState (settlements (onMessage example_pending 51 (Some example_response))) 0
     \<noteq> Some (Fulfilled (JNum 7))"
  by (simp add: example_server_reply promiseState_def onMessage_def resolve_def Let_def
      example_response_def example_response_props_def example_pending_sel)

subsection \<open>C2: close\<close>

text \<open>
  C2 at a client with one pending call: \<open>close\<close> rejects the call with \<open>ClosedError\<close>, but
  the callback store is what it was before, and so not empty. (\<open>close\<close> clears the socket
  store after closing the sockets; it does not clear the callback store after rejecting
  the callbacks.)
\<close>

theorem close_keeps_pending_calls:
  "settlements (close example_pending) = [(0, Rejected ClosedError)] \<and>
   callbackStorage (close example_pending) = callbackStorage example_pending \<and>
   callbackStorage (close example_pending) \<noteq> [] \<and>
   socketStorage (close example_pending) = []"
  by (simp add: close_store close_settlements example_pending_sel)
     (simp add: close_def Let_def example_pending_eq reject_def)

subsection \<open>C3: the timeout sweeper\<close>

text \<open>
  C3. One run of \<open>checkTimeouts\<close> at clock reading \<open>time\<close>, on a store with distinct keys (a
  \<open>Map\<close>): the store keeps exactly the entries whose expiry is strictly after \<open>time\<close>,
  unchanged and in order, and the calls of \<open>reject\<close> it makes are one \<open>TimeoutError\<close> for
  each entry whose expiry is at or before \<open>time\<close>, and no other.
\<close>

theorem checkTimeouts_sweeps_exactly_expired:
  assumes "distinct (map fst (callbackStorage c))"
  shows "callbackStorage (checkTimeouts c time)
           = filter (\<lambda>entry. cb_expiresAt (snd entry) > time) (callbackStorage c) \<and>
         settlements (checkTimeouts c time)
           = settlements c @
             map (\<lambda>entry. (cb_promise (snd entry), Rejected (TimeoutError ''Timeout error'')))
                 (filter (\<lambda>entry. cb_expiresAt (snd entry) \<le> time) (callbackStorage c))"
  using checkTimeouts_store[OF assms] checkTimeouts_settlements by simp

text \<open>
  Two pending calls, expiring at 1250 and at 1050; a sweep at 1050 rejects the second and
  keeps the first.
\<close>

theorem checkTimeouts_sweeps_exactly_expired_witness:
  "distinct (map fst (callbackStorage example_two_pending)) \<and>
   callbackStorage (checkTimeouts example_two_pending 1050)
     = [(0, \<lparr>cb_createdAt = 1000, cb_expiresAt = 1250, cb_promise = 0,
             cb_action = ''echo'', cb_sourceUri = ''tcp://10.0.0.5:3000''\<rparr>)] \<and>
   settlements (checkTimeouts example_two_pending 1050)
     = [(1, Rejected (TimeoutError ''Timeout error''))]"
proof -
  have d: "distinct (map fst (callbackStorage example_two_pending))"
    by (simp add: example_two_pending_sel)
  show ?thesis
    using d checkTimeouts_sweeps_exactly_expired[OF d, of 1050]
    by (simp add: example_two_pending_sel)
qed

subsection \<open>C4: the id counter\<close>

text \<open>
  C4. A constructed client starts with counter 0. \<open>getNextId\<close> returns the counter and adds
  one to it, and sets it to 0 only when the incremented counter exceeds \<open>MAX_ID\<close> (that is,
  right after id 10,000,000 has been issued). From any counter in \<open>0..MAX_ID\<close>, \<open>n\<close>
  successive draws with \<open>n \<le> MAX_ID + 1\<close>, so every \<open>n\<close> below the ceiling, are pairwise
  distinct; from a fresh client they are \<open>0, 1, ..., n - 1\<close>.
\<close>

theorem getNextId_cycle:
  assumes "newClient e options = Inr c0"
    and "0 \<le> nextId c" and "nextId c \<le> MAX_ID" and "int n \<le> MAX_ID + 1"
  shows "nextId c0 = 0 \<and>
         fst (getNextId c) = nextId c \<and>
         nextId (snd (getNextId c)) = (if nextId c + 1 > MAX_ID then 0 else nextId c + 1) \<and>
         fst (drawIds n c0) = map int [0..<n] \<and>
         distinct (fst (drawIds n c))"
  using newClient_fresh[OF assms(1)] getNextId_nextId[of c] drawIds_distinct[OF assms(2,3,4)]
    drawIds_fresh[of c0 n] assms(4)
  by simp

text \<open>Three draws from the fresh client, and three draws across the wrap.\<close>

theorem getNextId_cycle_witness:
  "newClient example_env example_options = Inr example_client \<and>
   0 \<le> nextId example_near_ceiling \<and> nextId example_near_ceiling \<le> MAX_ID \<and>
   int 3 \<le> MAX_ID + 1 \<and>
   nextId example_client = 0 \<and>
   fst (drawIds 3 example_client) = [0, 1, 2] \<and>
   fst (drawIds 3 example_near_ceiling) = [9999999, 10000000, 0] \<and>
   distinct (fst (drawIds 3 example_near_ceiling))"
proof -
  have h: "0 \<le> nextId example_near_ceiling" "nextId example_near_ceiling \<le> MAX_ID"
      "int 3 \<le> MAX_ID + 1"
    by (simp_all add: example_near_ceiling_def MAX_ID_def)
  have ids: "fst (drawIds 3 example_near_ceiling) = [9999999, 10000000, 0]"
    by (simp add: eval_nat_numeral example_near_ceiling_def getNextId_def Let_def MAX_ID_def)
  have up: "map int [0..<3] = [0, 1, 2]"
    by (simp add: eval_nat_numeral upt_rec)
  from getNextId_cycle[OF newClient_example h]
  show ?thesis using newClient_example h ids up by simp
qed

subsection \<open>C5: registration and transmission share a turn\<close>

text \<open>
  C5. In program order \<open>send\<close> transmits first: \<open>sendRaw\<close> puts the request on the
  transport as its last act and stores nothing. What is left of \<open>send\<close> is the registration
  and nothing else: the client after \<open>send\<close> is the client after \<open>sendRaw\<close> with one more
  promise and the callback stored under the id of the request that went out. Both happen
  in one turn of the event loop, and that turn takes no payload from the inbox; no turn
  but the listener's ever does. So a response is handled in a later turn, and one that
  carries the request's id, handled on the client as the turn of \<open>send\<close> left it, calls
  the \<open>resolve\<close> of the promise \<open>send\<close> returned. Over every schedule of turns, between any
  two turns the number of response-wanted requests transmitted equals the number of
  callbacks registered: no turn boundary falls between a transmission and its
  registration.
\<close>

theorem send_turn_atomic:
  assumes "sendRaw (client w) now address action params True = (m, c1)"
    and "send (client w) now address action params = (p, c')"
  shows "callbackStorage c1 = callbackStorage (client w) \<and>
         (\<exists>evs k. transport c1 = transport (client w) @ evs @ [Sent k m] \<and> sent evs = []) \<and>
         req_responseWanted m \<and>
         c' = c1\<lparr>promises := promises c1 + 1,
                 callbackStorage := AList.update (req_id m)
                   \<lparr>cb_createdAt = req_createdAt m, cb_expiresAt = req_expiresAt m,
                    cb_promise = p, cb_action = action, cb_sourceUri = req_sourceUri m\<rparr>
                   (callbackStorage c1)\<rparr> \<and>
         turn (CallSend now address action params) w = \<lparr>client = c', inbox = inbox w\<rparr> \<and>
         map_option cb_promise (map_of (callbackStorage c') (req_id m)) = Some p \<and>
         (\<forall>len props rest. map_of props ''id'' = Some (JNum (req_id m)) \<and> listening c' \<longrightarrow>
            turn Listener \<lparr>client = c', inbox = (len, Some (JObj props)) # rest\<rparr>
              = \<lparr>client = onMessage c' len (Some (JObj props)), inbox = rest\<rparr> \<and>
            settlements (onMessage c' len (Some (JObj props)))
              = settlements c' @
                [(p, Fulfilled (JObj (AList.update ''size'' (JNum (int len)) props)))]) \<and>
         (\<forall>t. t \<noteq> Listener \<longrightarrow> take (length (inbox w)) (inbox (turn t w)) = inbox w) \<and>
         (wantedSent (client w) = promises (client w) \<longrightarrow>
            (\<forall>ts. wantedSent (client (run ts w)) = promises (client (run ts w))))"
proof -
  let ?c = "client w"
  have m: "m = fst (sendRaw ?c now address action params True)"
    and c1: "c1 = snd (sendRaw ?c now address action params True)"
    using assms(1) by simp_all
  have c': "c' = snd (send ?c now address action params)"
    using assms(2) by simp
  have "p = fst (send ?c now address action params)"
    using assms(2) by simp
  then have p: "p = promises ?c"
    by (simp add: send_unfold)
  have id: "req_id m = nextId ?c" by (simp add: m sendRaw_message)
  have reg: "map_of (callbackStorage c') (req_id m) =
      Some \<lparr>cb_createdAt = now, cb_expiresAt = now + getTimeout ?c params, cb_promise = promises ?c,
            cb_action = action, cb_sourceUri = fst (getBindUri ?c)\<rparr>"
    by (simp add: c' id send_unfold update_conv')
  have f1: "callbackStorage c1 = callbackStorage ?c" by (simp add: c1)
  have f2: "\<exists>evs k. transport c1 = transport ?c @ evs @ [Sent k m] \<and> sent evs = []"
    unfolding m c1 by (rule sendRaw_transport)
  have f3: "req_responseWanted m" by (simp add: m sendRaw_message)
  have f4: "c' = c1\<lparr>promises := promises c1 + 1,
                 callbackStorage := AList.update (req_id m)
                   \<lparr>cb_createdAt = req_createdAt m, cb_expiresAt = req_expiresAt m,
                    cb_promise = p, cb_action = action, cb_sourceUri = req_sourceUri m\<rparr>
                   (callbackStorage c1)\<rparr>"
    by (simp add: c' c1 p m send_unfold sendRaw_message)
  have f5: "turn (CallSend now address action params) w = \<lparr>client = c', inbox = inbox w\<rparr>"
    by (simp add: c')
  have f6: "map_option cb_promise (map_of (callbackStorage c') (req_id m)) = Some p"
    by (simp add: reg p)
  have f7: "\<forall>len props rest. map_of props ''id'' = Some (JNum (req_id m)) \<and> listening c' \<longrightarrow>
            turn Listener \<lparr>client = c', inbox = (len, Some (JObj props)) # rest\<rparr>
              = \<lparr>client = onMessage c' len (Some (JObj props)), inbox = rest\<rparr> \<and>
            settlements (onMessage c' len (Some (JObj props)))
              = settlements c' @
                [(p, Fulfilled (JObj (AList.update ''size'' (JNum (int len)) props)))]"
    by (intro allI impI) (simp add: onMessage_present[OF _ reg] p)
  have f8: "\<forall>t. t \<noteq> Listener \<longrightarrow> take (length (inbox w)) (inbox (turn t w)) = inbox w"
    by (intro allI impI) (rule turn_keeps_inbox)
  have f9: "wantedSent (client w) = promises (client w) \<longrightarrow>
            (\<forall>ts. wantedSent (client (run ts w)) = promises (client (run ts w)))"
    by (intro allI impI) (rule run_counts)
  show ?thesis
    by (rule conjI[OF f1 conjI[OF f2 conjI[OF f3 conjI[OF f4 conjI[OF f5 conjI[OF f6
          conjI[OF f7 conjI[OF f8 f9]]]]]]]])
qed

text \<open>
  The echo call of the scenario as one turn, then the arrival of its response and the
  listener turn that handles it.
\<close>

theorem send_turn_atomic_witness:
  "sendRaw (client example_world) 1000 ''10.0.0.9:2000'' ''echo'' example_params True
     = (example_request,
        snd (sendRaw example_client 1000 ''10.0.0.9:2000'' ''echo'' example_params True)) \<and>
   send (client example_world) 1000 ''10.0.0.9:2000'' ''echo'' example_params = (0, example_pending) \<and>
   turn (CallSend 1000 ''10.0.0.9:2000'' ''echo'' example_params) example_world
     = \<lparr>client = example_pending, inbox = []\<rparr> \<and>
   map_of example_response_props ''id'' = Some (JNum (req_id example_request)) \<and>
   listening example_pending \<and>
   turn Listener \<lparr>client = example_pending, inbox = [(51, Some (JObj example_response_props))]\<rparr>
     = \<lparr>client = onMessage example_pending 51 (Some (JObj example_response_props)), inbox = []\<rparr> \<and>
   settlements (onMessage example_pending 51 (Some (JObj example_response_props)))
     = [(0, Fulfilled (JObj [(''id'', JNum 0), (''data'', JNum 7),
                             (''sourceUri'', JStr ''tcp://10.0.0.9:2000''), (''size'', JNum 51)]))] \<and>
   Arrive 51 None \<noteq> Listener \<and>
   wantedSent (client example_world) = promises (client example_world) \<and>
   wantedSent (client (run [CallSend 1000 ''10.0.0.9:2000'' ''echo'' example_params,
                            Arrive 51 (Some (JObj example_response_props)), Listener] example_world))
     = promises (client (run [CallSend 1000 ''10.0.0.9:2000'' ''echo'' example_params,
                              Arrive 51 (Some (JObj example_response_props)), Listener] example_world)) \<and>
   promises (client (run [CallSend 1000 ''10.0.0.9:2000'' ''echo'' example_params,
                          Arrive 51 (Some (JObj example_response_props)), Listener] example_world)) = 1"
proof -
  let ?ts = "[CallSend 1000 ''10.0.0.9:2000'' ''echo'' example_params,
              Arrive 51 (Some (JObj example_response_props)), Listener]"
  have h1: "sendRaw (client example_world) 1000 ''10.0.0.9:2000'' ''echo'' example_params True
     = (example_request,
        snd (sendRaw example_client 1000 ''10.0.0.9:2000'' ''echo'' example_params True))"
    and h2: "send (client example_world) 1000 ''10.0.0.9:2000'' ''echo'' example_params
     = (0, example_pending)"
    unfolding example_world_sel by (rule example_send_eq)+
  have i: "map_of example_response_props ''id'' = Some (JNum (req_id example_request))"
    by (simp add: example_response_props_def example_request_eq)
  have c0: "wantedSent (client example_world) = promises (client example_world)"
    by (simp add: example_world_sel wantedSent_def example_client_def)
  note th = send_turn_atomic[OF h1 h2]
  have t: "turn (CallSend 1000 ''10.0.0.9:2000'' ''echo'' example_params) example_world
             = \<lparr>client = example_pending, inbox = inbox example_world\<rparr>"
    and l: "\<forall>len props rest. map_of props ''id'' = Some (JNum (req_id example_request)) \<and>
              listening example_pending \<longrightarrow>
            turn Listener \<lparr>client = example_pending, inbox = (len, Some (JObj props)) # rest\<rparr>
              = \<lparr>client = onMessage example_pending len (Some (JObj props)), inbox = rest\<rparr> \<and>
            settlements (onMessage example_pending len (Some (JObj props)))
              = settlements example_pending @
                [(0, Fulfilled (JObj (AList.update ''size'' (JNum (int len)) props)))]"
    and g: "wantedSent (client example_world) = promises (client example_world) \<longrightarrow>
            (\<forall>ts. wantedSent (client (run ts example_world)) = promises (client (run ts example_world)))"
    by (rule th[THEN conjunct2, THEN conjunct2, THEN conjunct2, THEN conjunct2, THEN conjunct1],
        rule th[THEN conjunct2, THEN conjunct2, THEN conjunct2, THEN conjunct2, THEN conjunct2,
                THEN conjunct2, THEN conjunct1],
        rule th[THEN conjunct2, THEN conjunct2, THEN conjunct2, THEN conjunct2, THEN conjunct2,
                THEN conjunct2, THEN conjunct2, THEN conjunct2])
  from l i listening_example(1)
  have l': "turn Listener \<lparr>client = example_pending,
                            inbox = (51, Some (JObj example_response_props)) # []\<rparr>
              = \<lparr>client = onMessage example_pending 51 (Some (JObj example_response_props)),
                 inbox = []\<rparr> \<and>
            settlements (onMessage example_pending 51 (Some (JObj example_response_props)))
              = settlements example_pending @
                [(0, Fulfilled (JObj (AList.update ''size'' (JNum (int 51)) example_response_props)))]"
    by blast
  from g c0 have g': "wantedSent (client (run ?ts example_world)) = promises (client (run ?ts example_world))"
    by blast
  have r: "client (run ?ts example_world)
             = onMessage example_pending 51 (Some (JObj example_response_props))"
    using t l' listening_example(1) by (simp add: run_def example_world_sel)
  have pr: "promises (client (run ?ts example_world)) = 1"
    by (simp add: r example_pending_eq)
  show ?thesis
    using h1 h2 t i listening_example(1) l' c0 g' pr
    by (simp add: example_world_sel example_pending_sel example_response_props_def)
qed

subsection \<open>C6: the expiry of a request\<close>

text \<open>
  C6, as the code has it. For every request \<open>sendRaw\<close> builds, for \<open>fire\<close>
  (\<open>responseWanted = False\<close>) and for \<open>send\<close> (\<open>True\<close>) alike, \<open>createdAt\<close> is the clock
  reading and \<open>expiresAt = createdAt + t\<close>, where \<open>t\<close> is \<open>params.timeout\<close> when that is given
  and is not 0, and the client's \<open>defaultTimeout\<close> when it is absent or 0.
\<close>

theorem sendRaw_expiry:
  "req_createdAt (fst (sendRaw c now address action params rw)) = now \<and>
   req_expiresAt (fst (sendRaw c now address action params rw))
     = req_createdAt (fst (sendRaw c now address action params rw))
       + (case timeout params of
            None \<Rightarrow> defaultTimeout c
          | Some t \<Rightarrow> if t = 0 then defaultTimeout c else t) \<and>
   req_responseWanted (fst (sendRaw c now address action params rw)) = rw"
  by (simp add: sendRaw_message getTimeout_def or_default_def split: option.splits)

text \<open>
  C6 as stated fails for \<open>params.timeout = 0\<close>: with the default timeout of 250, a request
  created at 1000 expires at 1250, not at 1000 + 0.
\<close>

theorem sendRaw_zero_timeout_counterexample:
  "timeout example_zero_timeout_params = Some 0 \<and>
   req_createdAt (fst (sendRaw example_client 1000 ''10.0.0.9:2000'' ''echo''
                         example_zero_timeout_params True)) = 1000 \<and>
   req_expiresAt (fst (sendRaw example_client 1000 ''10.0.0.9:2000'' ''echo''
                         example_zero_timeout_params True)) = 1250 \<and>
   req_expiresAt (fst (sendRaw example_client 1000 ''10.0.0.9:2000'' ''echo''
                         example_zero_timeout_params True))
     \<noteq> req_createdAt (fst (sendRaw example_client 1000 ''10.0.0.9:2000'' ''echo''
                               example_zero_timeout_params True)) + 0"
  by (simp add: sendRaw_message getTimeout_def or_default_def example_zero_timeout_params_def
      example_client_def)

subsection \<open>C7: the minimum default timeout\<close>

text \<open>
  C7, as the code has it. For every options value whose \<open>defaultTimeout\<close> is given, is not
  0 and is below 2, the constructor throws an \<open>Error\<close>. (A \<open>defaultTimeout\<close> of 0 is replaced
  by the default of 250 before the options are validated.)
\<close>

theorem newClient_rejects_small_timeout:
  assumes "opt_defaultTimeout options = Some t" and "t \<noteq> 0" and "t < 2"
  shows "\<exists>msg. newClient e options = Inl (Error msg)"
  using assms
  by (simp add: newClient_def validateOptions_def Let_def or_default_def less_opt_def
      split: option.splits)

text \<open>A \<open>defaultTimeout\<close> of 1 on otherwise valid options.\<close>

theorem newClient_rejects_small_timeout_witness:
  "opt_defaultTimeout example_small_timeout_options = Some 1 \<and> (1::int) \<noteq> 0 \<and> (1::int) < 2 \<and>
   newClient example_env example_small_timeout_options
     = Inl (Error ''Timeout cannot be set to value smaller then 2: 1'')"
proof -
  have h: "opt_defaultTimeout example_small_timeout_options = Some 1"
    by (simp add: example_small_timeout_options_def)
  from newClient_rejects_small_timeout[OF h, of example_env]
  obtain msg where m: "newClient example_env example_small_timeout_options = Inl (Error msg)"
    by auto
  have "newClient example_env example_small_timeout_options
     = Inl (Error ''Timeout cannot be set to value smaller then 2: 1'')"
    by (simp add: newClient_def validateOptions_def example_small_timeout_options_def
        example_options_def or_default_def less_opt_def show_opt_def show_int_def digits.simps
        CHECK_TIMEOUTS_INTERVAL_def DEFAULT_PROTOCOL_def MIN_PORT_def MAX_PORT_def indexOf_def)
  with h m show ?thesis by simp
qed

text \<open>
  C7 as stated fails for \<open>defaultTimeout = 0\<close>: the constructor succeeds, and the client it
  returns is the one built from the defaults, with a default timeout of 250.
\<close>

theorem newClient_zero_timeout_counterexample:
  "opt_defaultTimeout example_zero_timeout_options = Some 0 \<and>
   newClient example_env example_zero_timeout_options = Inr example_client \<and>
   defaultTimeout example_client = 250"
  by (simp add: newClient_def validateOptions_def example_zero_timeout_options_def
      example_options_def example_client_def or_default_def less_opt_def
      DEFAULT_TIMEOUT_def CHECK_TIMEOUTS_INTERVAL_def DEFAULT_PROTOCOL_def MIN_PORT_def MAX_PORT_def)

subsection \<open>C8: the server's reply\<close>

text \<open>
  C8. On a listening server whose cache holds connected sockets (\<open>srv_cache_inv\<close>), for a
  decoded request \<open>m\<close>: if \<open>responseWanted\<close> is false the server is left as it was, whatever
  the handler returns, so nothing is connected and nothing is sent. If it is true and
  awaiting the handler gives \<open>result\<close>, the server adds to its transport log exactly this:
  when the cache has a socket for the request's \<open>sourceUri\<close>, one payload sent on that
  socket, which is connected to that URI, the cache unchanged; when it has none, a new
  push socket connected to the request's \<open>sourceUri\<close>, one payload sent on it, and that
  socket stored in the cache under the URI. In both cases the payload is the response
  record with the request's id, \<open>result\<close> as data and the server's own listening URI as
  \<open>sourceUri\<close>, and the cache still holds connected sockets only.
\<close>

theorem onRequestMessage_reply:
  assumes "onRequest s = Some h" and "srv_cache_inv s"
  shows "(\<not> req_responseWanted m \<longrightarrow> onRequestMessage s (Inr m) = s) \<and>
         (req_responseWanted m \<and> h (Inr m) = Inr result \<longrightarrow>
            (case map_of (srv_socketStorage s) (req_sourceUri m) of
               Some k \<Rightarrow>
                 endpoint k = req_sourceUri m \<and> Connected k \<in> set (srv_transport s) \<and>
                 srv_socketStorage (onRequestMessage s (Inr m)) = srv_socketStorage s \<and>
                 srv_transport (onRequestMessage s (Inr m)) =
                   srv_transport s @
                   [Sent k (JObj [(''id'', JNum (req_id m)), (''data'', result),
                       (''sourceUri'', JStr (show_protocol (srv_protocol s) @ ''://'' @
                          (case srv_host s of Some a \<Rightarrow> a | None \<Rightarrow> getSystemHost (srv_sys s)) @
                          '':'' @ show_int (srv_port s)))])]
             | None \<Rightarrow>
                 srv_socketStorage (onRequestMessage s (Inr m)) =
                   AList.update (req_sourceUri m)
                     \<lparr>sock_type = ''push'', identity = ''bind'' @ show_int (int (pid (srv_sys s))),
                      endpoint = req_sourceUri m\<rparr> (srv_socketStorage s) \<and>
                 srv_transport (onRequestMessage s (Inr m)) =
                   srv_transport s @
                   [Connected \<lparr>sock_type = ''push'',
                       identity = ''bind'' @ show_int (int (pid (srv_sys s))),
                       endpoint = req_sourceUri m\<rparr>,
                    Sent \<lparr>sock_type = ''push'',
                       identity = ''bind'' @ show_int (int (pid (srv_sys s))),
                       endpoint = req_sourceUri m\<rparr>
                      (JObj [(''id'', JNum (req_id m)), (''data'', result),
                       (''sourceUri'', JStr (show_protocol (srv_protocol s) @ ''://'' @
                          (case srv_host s of Some a \<Rightarrow> a | None \<Rightarrow> getSystemHost (srv_sys s)) @
                          '':'' @ show_int (srv_port s)))])]) \<and>
            srv_cache_inv (onRequestMessage s (Inr m)))"
proof (intro conjI impI)
  assume "\<not> req_responseWanted m"
  then show "onRequestMessage s (Inr m) = s" by (rule onRequestMessage_not_wanted)
next
  assume a: "req_responseWanted m \<and> h (Inr m) = Inr result"
  let ?s1 = "snd (getListenUri s)"
  note eq = onRequestMessage_wanted[OF assms(1), of m result]
  show "srv_cache_inv (onRequestMessage s (Inr m))"
    by (rule onRequestMessage_cache_inv[OF assms(2)])
  show "case map_of (srv_socketStorage s) (req_sourceUri m) of
               Some k \<Rightarrow>
                 endpoint k = req_sourceUri m \<and> Connected k \<in> set (srv_transport s) \<and>
                 srv_socketStorage (onRequestMessage s (Inr m)) = srv_socketStorage s \<and>
                 srv_transport (onRequestMessage s (Inr m)) =
                   srv_transport s @
                   [Sent k (JObj [(''id'', JNum (req_id m)), (''data'', result),
                       (''sourceUri'', JStr (show_protocol (srv_protocol s) @ ''://'' @
                          (case srv_host s of Some a \<Rightarrow> a | None \<Rightarrow> getSystemHost (srv_sys s)) @
                          '':'' @ show_int (srv_port s)))])]
             | None \<Rightarrow>
                 srv_socketStorage (onRequestMessage s (Inr m)) =
                   AList.update (req_sourceUri m)
                     \<lparr>sock_type = ''push'', identity = ''bind'' @ show_int (int (pid (srv_sys s))),
                      endpoint = req_sourceUri m\<rparr> (srv_socketStorage s) \<and>
                 srv_transport (onRequestMessage s (Inr m)) =
                   srv_transport s @
                   [Connected \<lparr>sock_type = ''push'',
                       identity = ''bind'' @ show_int (int (pid (srv_sys s))),
                       endpoint = req_sourceUri m\<rparr>,
                    Sent \<lparr>sock_type = ''push'',
                       identity = ''bind'' @ show_int (int (pid (srv_sys s))),
                       endpoint = req_sourceUri m\<rparr>
                      (JObj [(''id'', JNum (req_id m)), (''data'', result),
                       (''sourceUri'', JStr (show_protocol (srv_protocol s) @ ''://'' @
                          (case srv_host s of Some a \<Rightarrow> a | None \<Rightarrow> getSystemHost (srv_sys s)) @
                          '':'' @ show_int (srv_port s)))])]"
  proof (cases "map_of (srv_socketStorage s) (req_sourceUri m)")
    case None
    then have miss: "map_of (srv_socketStorage ?s1) (req_sourceUri m) = None" by simp
    show ?thesis
      using a by (simp add: None eq sendResponse_miss[OF miss] getListenUri_value)
  next
    case (Some k)
    then have hit: "map_of (srv_socketStorage ?s1) (req_sourceUri m) = Some k" by simp
    have mem: "(req_sourceUri m, k) \<in> set (srv_socketStorage s)" using Some by (rule map_of_SomeD)
    have "endpoint k = req_sourceUri m \<and> Connected k \<in> set (srv_transport s)"
      using assms(2) mem by (auto simp: srv_cache_inv_iff)
    then show ?thesis
      using a by (simp add: Some eq sendResponse_hit[OF hit] getListenUri_value)
  qed
qed

text \<open>
  The echo server on the request of the scenario (nothing cached: connect, then send), on
  the same request a second time (the cached socket: send), and on the same request sent
  by \<open>fire\<close> (nothing).
\<close>

theorem onRequestMessage_reply_witness:
  "onRequest example_server = Some echo \<and> srv_cache_inv example_server \<and>
   onRequest example_server_replied = Some echo \<and> srv_cache_inv example_server_replied \<and>
   \<not> req_responseWanted example_fire_request \<and>
   onRequestMessage example_server (Inr example_fire_request) = example_server \<and>
   req_responseWanted example_request \<and> echo (Inr example_request) = Inr (JNum 7) \<and>
   map_of (srv_socketStorage example_server) (req_sourceUri example_request) = None \<and>
   srv_transport (onRequestMessage example_server (Inr example_request))
     = [Bound \<lparr>sock_type = ''pull'', identity = ''server4242'', endpoint = ''tcp://10.0.0.9:2000''\<rparr>,
        Connected \<lparr>sock_type = ''push'', identity = ''bind4242'', endpoint = ''tcp://10.0.0.5:3000''\<rparr>,
        Sent \<lparr>sock_type = ''push'', identity = ''bind4242'', endpoint = ''tcp://10.0.0.5:3000''\<rparr>
          (JObj [(''id'', JNum 0), (''data'', JNum 7), (''sourceUri'', JStr ''tcp://10.0.0.9:2000'')])] \<and>
   srv_socketStorage (onRequestMessage example_server (Inr example_request))
     = [(''tcp://10.0.0.5:3000'',
         \<lparr>sock_type = ''push'', identity = ''bind4242'', endpoint = ''tcp://10.0.0.5:3000''\<rparr>)] \<and>
   map_of (srv_socketStorage example_server_replied) (req_sourceUri example_request)
     = Some example_reply_socket \<and>
   srv_transport (onRequestMessage example_server_replied (Inr example_request))
     = srv_transport example_server_replied @
       [Sent example_reply_socket
          (JObj [(''id'', JNum 0), (''data'', JNum 7), (''sourceUri'', JStr ''tcp://10.0.0.9:2000'')])] \<and>
   srv_socketStorage (onRequestMessage example_server_replied (Inr example_request))
     = srv_socketStorage example_server_replied"
proof -
  let ?resp = "JObj [(''id'', JNum 0), (''data'', JNum 7), (''sourceUri'', JStr ''tcp://10.0.0.9:2000'')]"
  have h: "onRequest example_server = Some echo" by (simp add: example_server_sel)
  have inv: "srv_cache_inv example_server" by (simp add: srv_cache_inv_def example_server_sel)
  have h2: "onRequest example_server_replied = Some echo"
    by (simp add: example_server_replied_eq example_server_sel)
  have f: "\<not> req_responseWanted example_fire_request" by (simp add: example_fire_request_def)
  have w: "req_responseWanted example_request \<and> echo (Inr example_request) = Inr (JNum 7)"
    by (simp add: example_request_eq example_params_def echo_def)
  have u: "req_sourceUri example_request = ''tcp://10.0.0.5:3000''" "req_id example_request = 0"
    by (simp_all add: example_request_eq)
  have miss: "map_of (srv_socketStorage example_server) (req_sourceUri example_request) = None"
    by (simp add: example_server_sel)
  have hit: "map_of (srv_socketStorage example_server_replied) (req_sourceUri example_request)
               = Some example_reply_socket"
    by (simp add: example_server_replied_eq u)
  have sel2: "srv_protocol example_server_replied = tcp"
    "srv_host example_server_replied = Some ''10.0.0.9''"
    "srv_port example_server_replied = 2000"
    by (simp_all add: example_server_replied_eq example_server_sel)
  note t1 = onRequestMessage_reply[OF h inv, of example_fire_request, THEN conjunct1]
  note t2 = onRequestMessage_reply[OF h inv, of example_request "JNum 7", THEN conjunct2, rule_format, OF w]
  have inv2: "srv_cache_inv example_server_replied"
    unfolding example_server_replied_def by (rule t2[THEN conjunct2])
  note t3 = onRequestMessage_reply[OF h2 inv2, of example_request "JNum 7", THEN conjunct2, rule_format, OF w]
  have r1: "onRequestMessage example_server (Inr example_fire_request) = example_server"
    using t1 f by blast
  have r2: "srv_socketStorage (onRequestMessage example_server (Inr example_request))
     = [(''tcp://10.0.0.5:3000'',
         \<lparr>sock_type = ''push'', identity = ''bind4242'', endpoint = ''tcp://10.0.0.5:3000''\<rparr>)]"
    "srv_transport (onRequestMessage example_server (Inr example_request))
     = [Bound \<lparr>sock_type = ''pull'', identity = ''server4242'', endpoint = ''tcp://10.0.0.9:2000''\<rparr>,
        Connected \<lparr>sock_type = ''push'', identity = ''bind4242'', endpoint = ''tcp://10.0.0.5:3000''\<rparr>,
        Sent \<lparr>sock_type = ''push'', identity = ''bind4242'', endpoint = ''tcp://10.0.0.5:3000''\<rparr> ?resp]"
    using t2[THEN conjunct1]
    by (simp_all add: miss u example_server_sel show_protocol_def show_int_examples pid_example)
  have r3: "srv_transport (onRequestMessage example_server_replied (Inr example_request))
     = srv_transport example_server_replied @ [Sent example_reply_socket ?resp]"
    "srv_socketStorage (onRequestMessage example_server_replied (Inr example_request))
     = srv_socketStorage example_server_replied"
    using t3[THEN conjunct1]
    by (simp_all add: hit[unfolded u] u sel2 show_protocol_def show_int_examples)
  show ?thesis
    using h inv h2 inv2 f r1 w miss r2 hit r3 by simp
qed

subsection \<open>C9: fire creates no pending call\<close>

text \<open>
  C9. \<open>fire\<close>, and \<open>fireMulti\<close> over any list of addresses, leave the callback store as it
  was, call no \<open>resolve\<close> and no \<open>reject\<close>, and create no promise. Both are functions of the
  client and their arguments alone: nothing in them waits for a server.
\<close>

theorem fire_creates_no_pending_call:
  "callbackStorage (fire c now address action params) = callbackStorage c \<and>
   settlements (fire c now address action params) = settlements c \<and>
   promises (fire c now address action params) = promises c \<and>
   callbackStorage (fireMulti c now addresses action params) = callbackStorage c \<and>
   settlements (fireMulti c now addresses action params) = settlements c \<and>
   promises (fireMulti c now addresses action params) = promises c"
  using fireMulti_frame[of c now addresses action params] by (simp add: fire_frame)

subsection \<open>C10: sendMulti ignores its responseWanted argument\<close>

text \<open>
  C10. Two runs of \<open>sendMulti\<close> that differ only in \<open>responseWanted\<close> return the same promises
  and the same client (the same requests on the transport, the same callbacks stored), so
  the same \<open>Promise.all\<close> result under any later settlements. A run returns one promise for
  each address and transmits one request for each address, every one of them with
  \<open>responseWanted = true\<close>.
\<close>

theorem sendMulti_ignores_responseWanted:
  "sendMulti c now addresses action params rw = sendMulti c now addresses action params rw' \<and>
   promiseAll l (fst (sendMulti c now addresses action params rw))
     = promiseAll l (fst (sendMulti c now addresses action params rw')) \<and>
   length (fst (sendMulti c now addresses action params rw)) = length addresses \<and>
   map (\<lambda>km. req_responseWanted (snd km))
       (sent (drop (length (transport c))
                   (transport (snd (sendMulti c now addresses action params rw)))))
     = replicate (length addresses) True"
proof -
  obtain evs where "transport (snd (sendAll c now addresses action params)) = transport c @ evs"
      "map (\<lambda>km. req_responseWanted (snd km)) (sent evs) = replicate (length addresses) True"
    using sendAll_new_events[of c now addresses action params] by blast
  then show ?thesis
    by (simp add: sendMulti_def sendAll_length)
qed

end
